theory Spec2Isabelle
  imports Complex_Main
begin

section \<open>Music-Stream-Sync: the audio engine and the peer connection manager of App.js\<close>

text \<open>
  The development embeds the two classes of \<^verbatim>\<open>src/frontend/src/App.js\<close> that carry the
  timing and protocol logic, \<^verbatim>\<open>AudioSyncEngine\<close> and \<^verbatim>\<open>P2PManager\<close>, and the callbacks
  \<^verbatim>\<open>initializeP2P\<close> wires to them.

  Conventions of the embedding:
  \<^item> a JavaScript number is a \<^typ>\<open>real\<close>: arithmetic is exact, so an equation proved here
    holds in the browser up to the rounding of IEEE doubles;
  \<^item> a field that is \<^verbatim>\<open>null\<close> until something is created is an \<^typ>\<open>'a option\<close>;
  \<^item> a method mutates \<^verbatim>\<open>this\<close>: the model takes the object and returns the new one;
  \<^item> the two clocks the code reads, \<^verbatim>\<open>audioContext.currentTime\<close> (seconds) and
    \<^verbatim>\<open>performance.now()\<close> (milliseconds), are inputs of the call that reads them. One
    call reads each clock at one instant: \<^verbatim>\<open>currentTime\<close> does not move inside a task;
  \<^item> reading a property of \<^verbatim>\<open>null\<close> raises \<^verbatim>\<open>TypeError\<close>: a method that can do so returns
    \<open>js_error + _\<close>;
  \<^item> the browser objects (audio nodes, gain parameter, data channel, relay socket) are
    records that log the calls made on them;
  \<^item> a browser call whose failure the source catches (\<^verbatim>\<open>new AudioContext()\<close>, reading and
    decoding a file, \<^verbatim>\<open>createBuffer\<close>, \<^verbatim>\<open>connect\<close> inside \<^verbatim>\<open>playAudioChunk\<close>) can fail in the
    model, and the \<^verbatim>\<open>catch\<close> is a branch;
  \<^item> \<^verbatim>\<open>start\<close> and \<^verbatim>\<open>stop\<close> of the source node that \<^verbatim>\<open>play\<close>, \<^verbatim>\<open>pause\<close> and \<^verbatim>\<open>stop\<close> drive
    raise as the Web Audio API says, and the source has no handler: the method then ends
    with the error and the object keeps what was assigned before the raise. A method that
    can raise after an assignment returns the error, if any, paired with the state it
    leaves; one that raises only before its first assignment returns \<open>js_error + _\<close>.
\<close>

subsection \<open>Browser objects\<close>

datatype js_error = TypeError | NotSupportedError | InvalidStateError | RangeError

text \<open>An \<^verbatim>\<open>AudioBuffer\<close> with one channel. Its \<^verbatim>\<open>duration\<close> is length over sample rate.\<close>

record audio_buffer =
  buf_sampleRate :: real
  channelData :: "real list"

definition duration :: "audio_buffer \<Rightarrow> real" where
  "duration b = real (length (channelData b)) / buf_sampleRate b"

text \<open>
  An \<^verbatim>\<open>AudioContext\<close>. \<^verbatim>\<open>createBuffer\<close> raises \<^verbatim>\<open>NotSupportedError\<close> when the length is
  zero or the sample rate is not positive or outside the range the implementation
  supports; that range is a property of the context.
\<close>

record audio_context =
  minSampleRate :: real
  maxSampleRate :: real

definition createBuffer :: "audio_context \<Rightarrow> nat \<Rightarrow> real \<Rightarrow> js_error + audio_buffer" where
  "createBuffer ctx len rate =
     (if len = 0 \<or> rate \<le> 0 \<or> rate < minSampleRate ctx \<or> maxSampleRate ctx < rate
      then Inl NotSupportedError
      else Inr \<lparr>buf_sampleRate = rate, channelData = replicate len 0\<rparr>)"

text \<open>
  The \<^verbatim>\<open>AudioBufferSourceNode\<close> held in \<^verbatim>\<open>this.sourceNode\<close>: the buffer it plays, the
  offset a successful \<^verbatim>\<open>start(0, offset)\<close> gave it (\<open>None\<close> while the node has not been
  started), and whether \<^verbatim>\<open>stop()\<close> was called on it.
\<close>

record source_node =
  node_buffer :: audio_buffer
  start_offset :: "real option"
  stopped :: bool

text \<open>
  \<^verbatim>\<open>start(0, offset)\<close> raises \<^verbatim>\<open>RangeError\<close> for a negative offset and \<^verbatim>\<open>InvalidStateError\<close>
  on a node already started; a failed \<^verbatim>\<open>start\<close> leaves the node not started. \<^verbatim>\<open>stop()\<close>
  raises \<^verbatim>\<open>InvalidStateError\<close> on a node that has not been started.
\<close>

definition node_start :: "source_node \<Rightarrow> real \<Rightarrow> js_error + source_node" where
  "node_start n offset =
     (if start_offset n \<noteq> None then Inl InvalidStateError
      else if offset < 0 then Inl RangeError
      else Inr (n\<lparr>start_offset := Some offset\<rparr>))"

definition node_stop :: "source_node \<Rightarrow> js_error + source_node" where
  "node_stop n =
     (if start_offset n = None then Inl InvalidStateError else Inr (n\<lparr>stopped := True\<rparr>))"

text \<open>
  A source node started by \<^verbatim>\<open>playAudioChunk\<close> with \<^verbatim>\<open>start(playTime)\<close>. The engine keeps
  no reference to it; the context plays it, so the model logs it.
\<close>

record chunk_node =
  chunk_buffer :: audio_buffer
  start_when :: real

definition end_when :: "chunk_node \<Rightarrow> real" where
  "end_when n = start_when n + duration (chunk_buffer n)"

text \<open>
  The automation events of an \<^verbatim>\<open>AudioParam\<close>. \<open>SetValueAtTime v t\<close> is the call
  \<^verbatim>\<open>setValueAtTime(v, t)\<close>, a step to \<open>v\<close> at time \<open>t\<close>; \<open>LinearRampToValueAtTime v t\<close> is
  \<^verbatim>\<open>linearRampToValueAtTime(v, t)\<close>, a ramp that reaches \<open>v\<close> at time \<open>t\<close>.
\<close>

datatype automation = SetValueAtTime real real | LinearRampToValueAtTime real real

fun is_ramp :: "automation \<Rightarrow> bool" where
  "is_ramp (SetValueAtTime v t) = False"
| "is_ramp (LinearRampToValueAtTime v t) = True"

text \<open>
  The value of a parameter at time \<open>t\<close>, for events in time order: \<open>v0\<close> is the value
  reached at \<open>t0\<close> by the events already passed. A gain parameter starts at 1.
\<close>

fun param_value :: "real \<Rightarrow> real \<Rightarrow> automation list \<Rightarrow> real \<Rightarrow> real" where
  "param_value v0 t0 [] t = v0"
| "param_value v0 t0 (SetValueAtTime v T # es) t =
     (if t < T then v0 else param_value v T es t)"
| "param_value v0 t0 (LinearRampToValueAtTime v T # es) t =
     (if t < T then (if t \<le> t0 then v0 else v0 + (v - v0) * (t - t0) / (T - t0))
      else param_value v T es t)"

record gain_node =
  gain_events :: "automation list"

definition gain_at :: "gain_node \<Rightarrow> real \<Rightarrow> real" where
  "gain_at g t = param_value 1 0 (gain_events g) t"

subsection \<open>AudioSyncEngine\<close>

text \<open>
  The fields of the constructor that the playback, volume and chunk methods read or
  write. \<open>started\<close> is the log of chunk nodes handed to the context.
\<close>

record engine =
  audioContext :: "audio_context option"
  audioBuffer :: "audio_buffer option"
  sourceNode :: "source_node option"
  gainNode :: "gain_node option"
  startTime :: real
  pauseTime :: real
  isPlaying :: bool
  nextPlayTime :: real
  started :: "chunk_node list"

definition AudioSyncEngine_new :: engine where
  "AudioSyncEngine_new =
     \<lparr>audioContext = None, audioBuffer = None, sourceNode = None, gainNode = None,
      startTime = 0, pauseTime = 0, isPlaying = False, nextPlayTime = 0, started = []\<rparr>"

text \<open>
  \<^verbatim>\<open>initialize()\<close>: \<open>mk\<close> is what \<^verbatim>\<open>new AudioContext()\<close> yields, \<open>None\<close> when it throws; the
  \<^verbatim>\<open>catch\<close> then returns \<^verbatim>\<open>false\<close> with nothing assigned.
\<close>

definition initialize :: "engine \<Rightarrow> audio_context option \<Rightarrow> bool \<times> engine" where
  "initialize s mk =
     (case mk of
        None \<Rightarrow> (False, s)
      | Some ctx \<Rightarrow> (True, s\<lparr>audioContext := Some ctx, gainNode := Some \<lparr>gain_events = []\<rparr>\<rparr>))"

text \<open>
  \<^verbatim>\<open>loadAudioFile(file)\<close>: \<open>arrayBuffer\<close> and \<open>decodeAudioData\<close> are the browser's two
  asynchronous steps, \<open>None\<close> when the promise rejects. Every failure inside the
  \<^verbatim>\<open>try\<close>, the \<^verbatim>\<open>TypeError\<close> of a missing context included, lands in the \<^verbatim>\<open>catch\<close>.
\<close>

definition loadAudioFile ::
  "('f \<Rightarrow> 'a option) \<Rightarrow> ('a \<Rightarrow> audio_buffer option) \<Rightarrow> engine \<Rightarrow> 'f \<Rightarrow> bool \<times> engine" where
  "loadAudioFile arrayBuffer decodeAudioData s file =
     (case arrayBuffer file of
        None \<Rightarrow> (False, s)
      | Some bytes \<Rightarrow>
          (case audioContext s of
             None \<Rightarrow> (False, s)
           | Some ctx \<Rightarrow>
               (case decodeAudioData bytes of
                  None \<Rightarrow> (False, s)
                | Some b \<Rightarrow> (True, s\<lparr>audioBuffer := Some b\<rparr>))))"

text \<open>\<^verbatim>\<open>stop()\<close>: the node's \<^verbatim>\<open>stop()\<close> comes first, so a raise leaves every field as it was.\<close>

definition stop :: "engine \<Rightarrow> js_error + engine" where
  "stop s =
     (case sourceNode s of
        None \<Rightarrow> Inr (s\<lparr>isPlaying := False, startTime := 0, pauseTime := 0\<rparr>)
      | Some n \<Rightarrow>
          (case node_stop n of
             Inl e \<Rightarrow> Inl e
           | Inr n' \<Rightarrow>
               Inr (s\<lparr>sourceNode := None, isPlaying := False, startTime := 0, pauseTime := 0\<rparr>)))"

text \<open>
  \<^verbatim>\<open>play(startOffset)\<close> at context time \<open>now\<close>: the outcome (\<^verbatim>\<open>false\<close>, \<^verbatim>\<open>true\<close> or the error
  raised) and the state left. A raise in \<^verbatim>\<open>this.stop()\<close> leaves the state as it was; a raise
  in \<^verbatim>\<open>start(0, startOffset)\<close> comes after \<^verbatim>\<open>this.stop()\<close>, the new node and the assignment
  of \<^verbatim>\<open>startTime\<close>, and before \<^verbatim>\<open>isPlaying = true\<close>.
\<close>

definition play :: "engine \<Rightarrow> real \<Rightarrow> real \<Rightarrow> (js_error + bool) \<times> engine" where
  "play s now startOffset =
     (case audioBuffer s of
        None \<Rightarrow> (Inr False, s)
      | Some b \<Rightarrow>
          (case audioContext s of
             None \<Rightarrow> (Inr False, s)
           | Some ctx \<Rightarrow>
               (case stop s of
                  Inl e \<Rightarrow> (Inl e, s)
                | Inr s1 \<Rightarrow>
                    (let node = \<lparr>node_buffer = b, start_offset = None, stopped = False\<rparr>;
                         s2 = s1\<lparr>sourceNode := Some node, startTime := now - startOffset\<rparr>
                     in case node_start node startOffset of
                          Inl e \<Rightarrow> (Inl e, s2)
                        | Inr node' \<Rightarrow>
                            (Inr True, s2\<lparr>sourceNode := Some node', isPlaying := True\<rparr>)))))"

text \<open>
  \<^verbatim>\<open>pause()\<close> at context time \<open>now\<close>: the error raised, if any, and the state left.
  \<^verbatim>\<open>pauseTime\<close> is assigned before the node's \<^verbatim>\<open>stop()\<close>.
\<close>

definition pause :: "engine \<Rightarrow> real \<Rightarrow> js_error option \<times> engine" where
  "pause s now =
     (case sourceNode s of
        None \<Rightarrow> (None, s)
      | Some n \<Rightarrow>
          (if isPlaying s then
             (case audioContext s of
                None \<Rightarrow> (Some TypeError, s)
              | Some ctx \<Rightarrow>
                  (case node_stop n of
                     Inl e \<Rightarrow> (Some e, s\<lparr>pauseTime := now - startTime s\<rparr>)
                   | Inr n' \<Rightarrow>
                       (None, s\<lparr>pauseTime := now - startTime s,
                                sourceNode := Some n',
                                isPlaying := False\<rparr>)))
           else (None, s)))"

text \<open>\<^verbatim>\<open>getCurrentTime()\<close> at context time \<open>now\<close>: the spec's \<^verbatim>\<open>currentPosition()\<close>.\<close>

definition getCurrentTime :: "engine \<Rightarrow> real \<Rightarrow> js_error + real" where
  "getCurrentTime s now =
     (if \<not> isPlaying s then Inr (pauseTime s)
      else (case audioContext s of
              None \<Rightarrow> Inl TypeError
            | Some ctx \<Rightarrow> Inr (now - startTime s)))"

text \<open>
  \<^verbatim>\<open>seek(time)\<close> at context time \<open>now\<close>: the value \<^verbatim>\<open>play\<close> returns is discarded, its
  error is not.
\<close>

definition seek :: "engine \<Rightarrow> real \<Rightarrow> real \<Rightarrow> js_error option \<times> engine" where
  "seek s now time =
     (if isPlaying s then
        (case play s now time of
           (Inl e, s') \<Rightarrow> (Some e, s')
         | (Inr b, s') \<Rightarrow> (None, s'))
      else (None, s\<lparr>pauseTime := time\<rparr>))"

text \<open>
  \<^verbatim>\<open>syncWithHost(hostTime, hostTimestamp)\<close>, the spec's \<^verbatim>\<open>correctAgainstHost\<close>: \<open>pnow\<close> is
  \<^verbatim>\<open>performance.now()\<close>, \<open>now\<close> the context time.
\<close>

definition networkLatency :: "real \<Rightarrow> real \<Rightarrow> real" where
  "networkLatency pnow hostTimestamp = (pnow - hostTimestamp) / 2"

definition targetTime :: "real \<Rightarrow> real \<Rightarrow> real \<Rightarrow> real" where
  "targetTime pnow hostTime hostTimestamp = hostTime + networkLatency pnow hostTimestamp / 1000"

definition syncWithHost ::
  "engine \<Rightarrow> real \<Rightarrow> real \<Rightarrow> real \<Rightarrow> real \<Rightarrow> js_error option \<times> engine" where
  "syncWithHost s now pnow hostTime hostTimestamp =
     (case getCurrentTime s now of
        Inl e \<Rightarrow> (Some e, s)
      | Inr cur \<Rightarrow>
          (if \<bar>cur - targetTime pnow hostTime hostTimestamp\<bar> > 5 / 100
           then seek s now (targetTime pnow hostTime hostTimestamp)
           else (None, s)))"

text \<open>\<^verbatim>\<open>setVolume(volume)\<close> at context time \<open>now\<close>.\<close>

definition setVolume :: "engine \<Rightarrow> real \<Rightarrow> real \<Rightarrow> js_error + engine" where
  "setVolume s now volume =
     (case gainNode s of
        None \<Rightarrow> Inr s
      | Some g \<Rightarrow>
          (case audioContext s of
             None \<Rightarrow> Inl TypeError
           | Some ctx \<Rightarrow>
               Inr (s\<lparr>gainNode :=
                        Some (g\<lparr>gain_events := gain_events g @ [SetValueAtTime volume now]\<rparr>)\<rparr>)))"

text \<open>
  \<^verbatim>\<open>playAudioChunk(audioData, timestamp, sampleRate)\<close> at context time \<open>now\<close>. A chunk
  arrives as the JSON object \<^verbatim>\<open>{audioData, timestamp, sampleRate}\<close>; a missing
  \<^verbatim>\<open>sampleRate\<close> is \<open>None\<close>, and \<^verbatim>\<open>sampleRate || 44100\<close> replaces a missing or zero rate.
\<close>

record chunk =
  audioData :: "real list"
  timestamp :: real
  sampleRate :: "real option"

definition rate_or_default :: "real option \<Rightarrow> real" where
  "rate_or_default r = (case r of None \<Rightarrow> 44100 | Some x \<Rightarrow> if x = 0 then 44100 else x)"

text \<open>
  The copy loop \<^verbatim>\<open>for (let i = 0; i < audioData.length; i++) channelData[i] = audioData[i]\<close>.
  A write past the end of a typed array is ignored, as \<open>list_update\<close> does.
\<close>

function copy_samples :: "real list \<Rightarrow> nat \<Rightarrow> real list \<Rightarrow> real list" where
  "copy_samples src i dst =
     (if i < length src
      then copy_samples src (Suc i) (dst[i := src ! i])
      else dst)"
  by pat_completeness auto
termination
  by (relation "measure (\<lambda>(src, i, dst). length src - i)") auto

declare copy_samples.simps [simp del]

text \<open>
  Every failure inside the \<^verbatim>\<open>try\<close> is caught and logged, and the chunk is then not
  scheduled: \<^verbatim>\<open>createBuffer\<close> may raise, and \<^verbatim>\<open>connect(null)\<close> raises \<^verbatim>\<open>TypeError\<close>.
\<close>

definition playAudioChunk :: "engine \<Rightarrow> real \<Rightarrow> chunk \<Rightarrow> engine" where
  "playAudioChunk s now c =
     (case audioContext s of
        None \<Rightarrow> s
      | Some ctx \<Rightarrow>
          (case createBuffer ctx (length (audioData c)) (rate_or_default (sampleRate c)) of
             Inl e \<Rightarrow> s
           | Inr b \<Rightarrow>
               (case gainNode s of
                  None \<Rightarrow> s
                | Some g \<Rightarrow>
                    (let buf = b\<lparr>channelData := copy_samples (audioData c) 0 (channelData b)\<rparr>;
                         playTime = max now (nextPlayTime s)
                     in s\<lparr>started := started s @ [\<lparr>chunk_buffer = buf, start_when = playTime\<rparr>],
                          nextPlayTime := playTime + duration buf\<rparr>))))"

text \<open>Chunks ingested in order, each at its own context time.\<close>

fun ingest :: "engine \<Rightarrow> (real \<times> chunk) list \<Rightarrow> engine" where
  "ingest s [] = s"
| "ingest s ((now, c) # xs) = ingest (playAudioChunk s now c) xs"

text \<open>The chunk can be turned into a buffer by the context.\<close>

definition playable :: "audio_context \<Rightarrow> chunk \<Rightarrow> bool" where
  "playable ctx c =
     (case createBuffer ctx (length (audioData c)) (rate_or_default (sampleRate c)) of
        Inl e \<Rightarrow> False | Inr b \<Rightarrow> True)"

subsection \<open>Histories of an engine\<close>

text \<open>
  The methods that touch the fields of the model, as operations; each is run at a
  context time. \<open>Initialize mk\<close> carries the outcome of \<^verbatim>\<open>new AudioContext()\<close>,
  \<open>LoadAudioFile r\<close> the outcome of decoding the file, \<open>SyncWithHost pnow h ht\<close> the
  reading of \<^verbatim>\<open>performance.now()\<close> and the two fields of the host's message. The capture
  methods (\<^verbatim>\<open>requestMicrophoneAccess\<close>, \<^verbatim>\<open>startLiveBroadcast\<close>, \<^verbatim>\<open>stopLiveBroadcast\<close>) write
  none of these fields. A call that raises leaves the object in the state its method
  returns with the error; \<^verbatim>\<open>stop\<close> and \<^verbatim>\<open>setVolume\<close> raise before they assign anything.
\<close>

datatype op =
    Initialize "audio_context option"
  | LoadAudioFile "audio_buffer option"
  | Play real
  | Pause
  | Stop
  | Seek real
  | SyncWithHost real real real
  | SetVolume real
  | PlayAudioChunk chunk

definition keep :: "engine \<Rightarrow> js_error + engine \<Rightarrow> engine" where
  "keep s r = (case r of Inl e \<Rightarrow> s | Inr s' \<Rightarrow> s')"

fun apply_op :: "engine \<Rightarrow> real \<times> op \<Rightarrow> engine" where
  "apply_op s (now, Initialize mk) = snd (initialize s mk)"
| "apply_op s (now, LoadAudioFile r) = snd (loadAudioFile Some (\<lambda>bytes. r) s ())"
| "apply_op s (now, Play t) = snd (play s now t)"
| "apply_op s (now, Pause) = snd (pause s now)"
| "apply_op s (now, Stop) = keep s (stop s)"
| "apply_op s (now, Seek t) = snd (seek s now t)"
| "apply_op s (now, SyncWithHost pnow h ht) = snd (syncWithHost s now pnow h ht)"
| "apply_op s (now, SetVolume v) = keep s (setVolume s now v)"
| "apply_op s (now, PlayAudioChunk c) = playAudioChunk s now c"

definition run :: "engine \<Rightarrow> (real \<times> op) list \<Rightarrow> engine" where
  "run s ops = foldl apply_op s ops"

text \<open>The state of an engine made by the constructor after a history of calls.\<close>

definition engine_after :: "(real \<times> op) list \<Rightarrow> engine" where
  "engine_after ops = run AudioSyncEngine_new ops"

text \<open>
  The source node, if there is one, has been started: \<^verbatim>\<open>this.stop()\<close> will not raise. Only
  a \<^verbatim>\<open>play\<close> whose \<^verbatim>\<open>start\<close> raised leaves a node that is not.
\<close>

definition startable :: "engine \<Rightarrow> bool" where
  "startable s = (case sourceNode s of None \<Rightarrow> True | Some n \<Rightarrow> start_offset n \<noteq> None)"

text \<open>What every history keeps true of the fields.\<close>

definition engine_inv :: "engine \<Rightarrow> bool" where
  "engine_inv s =
     ((isPlaying s \<longrightarrow> sourceNode s \<noteq> None \<and> startable s \<and> audioBuffer s \<noteq> None)
      \<and> (audioBuffer s \<noteq> None \<longrightarrow> audioContext s \<noteq> None)
      \<and> (gainNode s \<noteq> None) = (audioContext s \<noteq> None))"

text \<open>The state in which \<^verbatim>\<open>play\<close> passes its guard and its \<^verbatim>\<open>this.stop()\<close>.\<close>

definition ready :: "engine \<Rightarrow> bool" where
  "ready s = (audioBuffer s \<noteq> None \<and> audioContext s \<noteq> None \<and> startable s)"

text \<open>
  The calls of the playback clock, each made at a context time: the error a call raises,
  if any, with the state it leaves. A sequence of calls is run from a state up to the
  first call that raises.
\<close>

datatype call = PlayAt real | PauseNow | SeekTo real

fun step_call :: "engine \<Rightarrow> real \<times> call \<Rightarrow> js_error option \<times> engine" where
  "step_call s (now, PlayAt t) =
     (case play s now t of (Inl e, s') \<Rightarrow> (Some e, s') | (Inr b, s') \<Rightarrow> (None, s'))"
| "step_call s (now, PauseNow) = pause s now"
| "step_call s (now, SeekTo t) = seek s now t"

fun run_calls :: "engine \<Rightarrow> (real \<times> call) list \<Rightarrow> js_error + engine" where
  "run_calls s [] = Inr s"
| "run_calls s (x # xs) =
     (case step_call s x of (Some e, s') \<Rightarrow> Inl e | (None, s') \<Rightarrow> run_calls s' xs)"

text \<open>The offset a call names, if it names one.\<close>

fun position_set_by :: "call \<Rightarrow> real option" where
  "position_set_by (PlayAt t) = Some t"
| "position_set_by PauseNow = None"
| "position_set_by (SeekTo t) = Some t"

text \<open>
  The offset a call hands to \<^verbatim>\<open>start(0, offset)\<close> is not negative: every \<^verbatim>\<open>play(t)\<close>, and a
  \<^verbatim>\<open>seek(t)\<close> made while the engine is playing, has \<open>0 \<le> t\<close>. For a sequence, each call is
  judged in the state the calls before it have left.
\<close>

fun call_ok :: "engine \<Rightarrow> call \<Rightarrow> bool" where
  "call_ok s (PlayAt t) = (0 \<le> t)"
| "call_ok s PauseNow = True"
| "call_ok s (SeekTo t) = (isPlaying s \<longrightarrow> 0 \<le> t)"

fun calls_ok :: "engine \<Rightarrow> (real \<times> call) list \<Rightarrow> bool" where
  "calls_ok s [] = True"
| "calls_ok s ((now, c) # cs) = (call_ok s c \<and> calls_ok (snd (step_call s (now, c))) cs)"

text \<open>The node \<^verbatim>\<open>playAudioChunk\<close> starts at \<open>playTime\<close> for a chunk it can buffer.\<close>

definition chunk_node_of :: "real \<Rightarrow> chunk \<Rightarrow> chunk_node" where
  "chunk_node_of playTime c =
     \<lparr>chunk_buffer = \<lparr>buf_sampleRate = rate_or_default (sampleRate c), channelData = audioData c\<rparr>,
      start_when = playTime\<rparr>"

definition event_time :: "automation \<Rightarrow> real" where
  "event_time e = (case e of SetValueAtTime v t \<Rightarrow> t | LinearRampToValueAtTime v t \<Rightarrow> t)"

subsection \<open>P2PManager\<close>

datatype connection_state = CsNew | CsConnecting | CsConnected | CsDisconnected | CsFailed | CsClosed

datatype channel_state = ChConnecting | ChOpen | ChClosing | ChClosed

text \<open>
  An \<^verbatim>\<open>RTCDataChannel\<close>: its \<^verbatim>\<open>readyState\<close> and the payloads handed to \<^verbatim>\<open>send\<close>, each of
  them as the text \<^verbatim>\<open>JSON.stringify\<close> makes of it.
\<close>

record 'd data_channel =
  readyState :: channel_state
  sent :: "'d list"

text \<open>
  The fields of a \<^verbatim>\<open>P2PManager\<close>; the two callbacks are fixed at construction. The
  \<^verbatim>\<open>RTCPeerConnection\<close> is a value of a type \<open>'pc\<close> the browser owns.
\<close>

record ('pc, 'd) p2p_manager =
  peerConnection :: "'pc option"
  dataChannel :: "'d data_channel option"
  isHost :: bool
  connectionState :: connection_state

definition P2PManager_new :: "('pc, 'd) p2p_manager" where
  "P2PManager_new =
     \<lparr>peerConnection = None, dataChannel = None, isHost = False, connectionState = CsDisconnected\<rparr>"

text \<open>\<^verbatim>\<open>sendData(data)\<close>.\<close>

definition sendData :: "('pc, 'd) p2p_manager \<Rightarrow> 'd \<Rightarrow> ('pc, 'd) p2p_manager" where
  "sendData p d =
     (case dataChannel p of
        None \<Rightarrow> p
      | Some ch \<Rightarrow>
          (if readyState ch = ChOpen
           then p\<lparr>dataChannel := Some (ch\<lparr>sent := sent ch @ [d]\<rparr>)\<rparr>
           else p))"

text \<open>The guard of \<^verbatim>\<open>sendData\<close>: the channel exists and its \<^verbatim>\<open>readyState\<close> is \<^verbatim>\<open>'open'\<close>.\<close>

definition channel_open :: "('pc, 'd) p2p_manager \<Rightarrow> bool" where
  "channel_open p = (case dataChannel p of None \<Rightarrow> False | Some ch \<Rightarrow> readyState ch = ChOpen)"

text \<open>
  \<^verbatim>\<open>addIceCandidate(candidate)\<close>. \<open>rtc_add\<close> is the browser's
  \<^verbatim>\<open>RTCPeerConnection.addIceCandidate\<close>: it gives the connection after the call and, when
  the promise rejects, the error, which the \<^verbatim>\<open>await\<close> rethrows to the caller.
\<close>

definition addIceCandidate ::
  "('pc \<Rightarrow> 'c \<Rightarrow> js_error option \<times> 'pc) \<Rightarrow> ('pc, 'd) p2p_manager \<Rightarrow> 'c
     \<Rightarrow> js_error option \<times> ('pc, 'd) p2p_manager" where
  "addIceCandidate rtc_add p candidate =
     (case peerConnection p of
        None \<Rightarrow> (None, p)
      | Some pc \<Rightarrow>
          (case rtc_add pc candidate of
             (err, pc') \<Rightarrow> (err, p\<lparr>peerConnection := Some pc'\<rparr>)))"

subsection \<open>The signaling side of App\<close>

datatype ws_state = CONNECTING | OPEN | CLOSING | CLOSED

text \<open>The envelope \<^verbatim>\<open>{type, candidate, target_id}\<close> and the relay socket with its outbox.\<close>

record 'c envelope =
  env_type :: string
  env_candidate :: 'c
  target_id :: string

record 'c web_socket =
  ws_readyState :: ws_state
  ws_sent :: "'c envelope list"

definition sendWebSocketMessage ::
  "'c web_socket option \<Rightarrow> 'c envelope \<Rightarrow> 'c web_socket option" where
  "sendWebSocketMessage ws message =
     (case ws of
        None \<Rightarrow> None
      | Some w \<Rightarrow>
          (if ws_readyState w = OPEN then Some (w\<lparr>ws_sent := ws_sent w @ [message]\<rparr>)
           else Some w))"

text \<open>
  The first callback \<^verbatim>\<open>initializeP2P\<close> gives to \<^verbatim>\<open>new P2PManager\<close>, as far as the relay
  socket goes: the \<^verbatim>\<open>'data'\<close> branch hands the payload to the audio engine and sends
  nothing to the relay.
\<close>

definition onMessage :: "string \<Rightarrow> 'c \<Rightarrow> 'c web_socket option \<Rightarrow> 'c web_socket option" where
  "onMessage type data ws =
     (if type = ''ice-candidate''
      then sendWebSocketMessage ws
             \<lparr>env_type = ''webrtc_ice_candidate'', env_candidate = data, target_id = ''broadcast''\<rparr>
      else ws)"

text \<open>
  The handler \<^verbatim>\<open>onicecandidate\<close> set by \<^verbatim>\<open>P2PManager.initialize\<close>: the event's candidate is
  \<^verbatim>\<open>null\<close> at the end of gathering.
\<close>

definition onicecandidate :: "'c option \<Rightarrow> 'c web_socket option \<Rightarrow> 'c web_socket option" where
  "onicecandidate candidate ws =
     (case candidate of None \<Rightarrow> ws | Some c \<Rightarrow> onMessage ''ice-candidate'' c ws)"

text \<open>The envelopes a handler run added to the outbox of an open or closed socket.\<close>

definition outbox :: "'c web_socket option \<Rightarrow> 'c envelope list" where
  "outbox ws = (case ws of None \<Rightarrow> [] | Some w \<Rightarrow> ws_sent w)"

subsection \<open>The relay's addressing\<close>

record session =
  host :: string
  clients :: "string list"

definition members :: "session \<Rightarrow> string list" where
  "members sess = host sess # clients sess"

text \<open>
  Modelled from the spec: the relay server that routes envelopes is not among the
  sources. The spec has \<^verbatim>\<open>forward\<close> route an envelope "to the addressed connection, or to
  every other member of the sender's session when targetConnId == 'broadcast'".
\<close>

definition forward_targets :: "session \<Rightarrow> string \<Rightarrow> string \<Rightarrow> string list" where
  "forward_targets sess fromConnId targetConnId =
     (if targetConnId = ''broadcast'' then filter (\<lambda>m. m \<noteq> fromConnId) (members sess)
      else [targetConnId])"


subsection \<open>Fixtures\<close>

text \<open>
  A context that supports 8 kHz to 96 kHz, a decoded file of ten seconds, the history of
  an engine that has initialised and loaded it, and the same engine playing from offset
  0 since context time 0.
\<close>

definition example_context :: audio_context where
  "example_context = \<lparr>minSampleRate = 8000, maxSampleRate = 96000\<rparr>"

definition example_buffer :: audio_buffer where
  "example_buffer = \<lparr>buf_sampleRate = 8000, channelData = replicate 80000 0\<rparr>"

definition initialised :: engine where
  "initialised = engine_after [(0, Initialize (Some example_context))]"

definition loaded_history :: "(real \<times> op) list" where
  "loaded_history = [(0, Initialize (Some example_context)), (0, LoadAudioFile (Some example_buffer))]"

definition playing_history :: "(real \<times> op) list" where
  "playing_history = loaded_history @ [(0, Play 0)]"

text \<open>Half a second of sound at 8 kHz, as a chunk.\<close>

definition example_chunk :: chunk where
  "example_chunk = \<lparr>audioData = replicate 4000 (1 / 2), timestamp = 0, sampleRate = Some 8000\<rparr>"

text \<open>A chunk with no samples.\<close>

definition empty_chunk :: chunk where
  "empty_chunk = \<lparr>audioData = [], timestamp = 0, sampleRate = Some 8000\<rparr>"

text \<open>
  The loaded engine after \<^verbatim>\<open>play(-1)\<close> at context time 2, and a decoder that accepts only
  the payload \<open>''RIFF''\<close>.
\<close>

definition after_failed_play :: engine where
  "after_failed_play = snd (play (engine_after loaded_history) 2 (- 1))"

definition riff_decoder :: "string \<Rightarrow> audio_buffer option" where
  "riff_decoder bytes = (if bytes = ''RIFF'' then Some example_buffer else None)"

section \<open>Properties\<close>

subsection \<open>What every history of an engine keeps true\<close>

lemma engine_inv_new: "engine_inv AudioSyncEngine_new"
  by (simp add: engine_inv_def AudioSyncEngine_new_def)

lemma engine_inv_initialize: "engine_inv s \<Longrightarrow> engine_inv (snd (initialize s mk))"
  by (auto simp: engine_inv_def startable_def initialize_def split: option.splits)

lemma engine_inv_loadAudioFile: "engine_inv s \<Longrightarrow> engine_inv (snd (loadAudioFile ab dec s f))"
  by (auto simp: engine_inv_def startable_def loadAudioFile_def split: option.splits)

lemma stop_cases:
  "stop s = Inl InvalidStateError \<and> \<not> startable s
   \<or> stop s = Inr (s\<lparr>sourceNode := None, isPlaying := False, startTime := 0, pauseTime := 0\<rparr>)
     \<and> startable s"
proof (cases "sourceNode s")
  case None
  then have "s\<lparr>sourceNode := None\<rparr> = s" by simp
  then have "s\<lparr>sourceNode := None, isPlaying := False, startTime := 0, pauseTime := 0\<rparr>
               = s\<lparr>isPlaying := False, startTime := 0, pauseTime := 0\<rparr>"
    by simp
  then show ?thesis using None by (simp add: stop_def startable_def)
next
  case (Some n)
  then show ?thesis by (simp add: stop_def startable_def node_stop_def)
qed

lemma stop_startable:
  "startable s \<Longrightarrow>
   stop s = Inr (s\<lparr>sourceNode := None, isPlaying := False, startTime := 0, pauseTime := 0\<rparr>)"
  using stop_cases [of s] by auto

lemma stop_not_startable: "\<not> startable s \<Longrightarrow> stop s = Inl InvalidStateError"
  using stop_cases [of s] by auto

lemma engine_inv_stop: "engine_inv s \<Longrightarrow> engine_inv (keep s (stop s))"
  using stop_cases [of s]
  by (auto simp: keep_def engine_inv_def startable_def)

lemma play_guard: "audioBuffer s = None \<or> audioContext s = None \<Longrightarrow> play s now t = (Inr False, s)"
  by (auto simp: play_def split: option.splits)

lemma play_stuck:
  "audioBuffer s = Some b \<Longrightarrow> audioContext s = Some ctx \<Longrightarrow> \<not> startable s \<Longrightarrow>
   play s now t = (Inl InvalidStateError, s)"
  by (simp add: play_def stop_not_startable)

lemma play_negative:
  "audioBuffer s = Some b \<Longrightarrow> audioContext s = Some ctx \<Longrightarrow> startable s \<Longrightarrow> t < 0 \<Longrightarrow>
   play s now t =
     (Inl RangeError,
      s\<lparr>sourceNode := Some \<lparr>node_buffer = b, start_offset = None, stopped = False\<rparr>,
        isPlaying := False, startTime := now - t, pauseTime := 0\<rparr>)"
  by (simp add: play_def stop_startable node_start_def)

lemma play_started:
  "audioBuffer s = Some b \<Longrightarrow> audioContext s = Some ctx \<Longrightarrow> startable s \<Longrightarrow> 0 \<le> t \<Longrightarrow>
   play s now t =
     (Inr True,
      s\<lparr>sourceNode := Some \<lparr>node_buffer = b, start_offset = Some t, stopped = False\<rparr>,
        isPlaying := True, startTime := now - t, pauseTime := 0\<rparr>)"
  by (simp add: play_def stop_startable node_start_def)

lemma engine_inv_play: "engine_inv s \<Longrightarrow> engine_inv (snd (play s now t))"
proof -
  assume inv: "engine_inv s"
  show ?thesis
  proof (cases "audioBuffer s = None \<or> audioContext s = None")
    case True
    then show ?thesis using inv by (simp add: play_guard)
  next
    case False
    then obtain b ctx where f: "audioBuffer s = Some b" "audioContext s = Some ctx" by auto
    show ?thesis
    proof (cases "startable s")
      case False
      then show ?thesis using inv by (simp add: play_stuck [OF f])
    next
      case True
      show ?thesis
      proof (cases "t < 0")
        case True
        then show ?thesis
          using inv f by (simp add: play_negative [OF f \<open>startable s\<close>] engine_inv_def)
      next
        case False
        then have "0 \<le> t" by simp
        then show ?thesis
          using inv f by (simp add: play_started [OF f \<open>startable s\<close>] engine_inv_def startable_def)
      qed
    qed
  qed
qed

lemma pause_not_playing: "\<not> isPlaying s \<Longrightarrow> pause s now = (None, s)"
  by (simp add: pause_def split: option.splits)

lemma pause_no_node: "sourceNode s = None \<Longrightarrow> pause s now = (None, s)"
  by (simp add: pause_def)

lemma pause_playing:
  assumes "isPlaying s" "sourceNode s = Some n" "start_offset n \<noteq> None" "audioContext s = Some ctx"
  shows "pause s now = (None, s\<lparr>pauseTime := now - startTime s,
                                 sourceNode := Some (n\<lparr>stopped := True\<rparr>),
                                 isPlaying := False\<rparr>)"
  using assms by (simp add: pause_def node_stop_def)

lemma engine_inv_pause: "engine_inv s \<Longrightarrow> engine_inv (snd (pause s now))"
proof (cases "isPlaying s")
  case False
  assume "engine_inv s"
  then show ?thesis using False by (simp add: pause_not_playing)
next
  case True
  assume inv: "engine_inv s"
  with True obtain n ctx where
    f: "sourceNode s = Some n" "start_offset n \<noteq> None" "audioContext s = Some ctx"
    by (auto simp: engine_inv_def startable_def)
  show ?thesis
    using inv f by (simp add: pause_playing [OF True f] engine_inv_def startable_def)
qed

lemma seek_playing: "isPlaying s \<Longrightarrow> snd (seek s now t) = snd (play s now t)"
  by (simp add: seek_def split: prod.splits sum.splits)

lemma seek_paused: "\<not> isPlaying s \<Longrightarrow> seek s now t = (None, s\<lparr>pauseTime := t\<rparr>)"
  by (simp add: seek_def)

lemma engine_inv_seek: "engine_inv s \<Longrightarrow> engine_inv (snd (seek s now t))"
proof (cases "isPlaying s")
  case True
  assume "engine_inv s"
  then show ?thesis using True by (simp add: seek_playing engine_inv_play)
next
  case False
  assume "engine_inv s"
  then show ?thesis using False by (simp add: seek_paused engine_inv_def startable_def)
qed

lemma engine_inv_syncWithHost:
  "engine_inv s \<Longrightarrow> engine_inv (snd (syncWithHost s now pnow h ht))"
  using engine_inv_seek [of s now "targetTime pnow h ht"]
  by (auto simp: syncWithHost_def split: sum.splits)

lemma engine_inv_setVolume: "engine_inv s \<Longrightarrow> engine_inv (keep s (setVolume s now v))"
  by (auto simp: engine_inv_def startable_def setVolume_def keep_def split: option.splits)

lemma engine_inv_playAudioChunk: "engine_inv s \<Longrightarrow> engine_inv (playAudioChunk s now c)"
  by (auto simp: engine_inv_def startable_def playAudioChunk_def Let_def
      split: option.splits sum.splits)

lemma engine_inv_apply_op: "engine_inv s \<Longrightarrow> engine_inv (apply_op s x)"
proof -
  assume inv: "engine_inv s"
  obtain now o' where x: "x = (now, o')" by (cases x)
  show ?thesis
    unfolding x
    by (cases o')
      (simp_all add: inv engine_inv_initialize engine_inv_loadAudioFile engine_inv_play
        engine_inv_pause engine_inv_stop engine_inv_seek engine_inv_syncWithHost
        engine_inv_setVolume engine_inv_playAudioChunk)
qed

lemma engine_inv_run: "engine_inv s \<Longrightarrow> engine_inv (run s ops)"
  unfolding run_def
  by (induction ops arbitrary: s) (simp_all add: engine_inv_apply_op)

lemma engine_inv_after: "engine_inv (engine_after ops)"
  by (simp add: engine_after_def engine_inv_run engine_inv_new)

subsection \<open>The fixtures, evaluated\<close>

lemma initialised_eq:
  "initialised = AudioSyncEngine_new\<lparr>audioContext := Some example_context,
                                     gainNode := Some \<lparr>gain_events = []\<rparr>\<rparr>"
  by (simp add: initialised_def engine_after_def run_def initialize_def)

lemma loaded_eq:
  "engine_after loaded_history
     = AudioSyncEngine_new\<lparr>audioContext := Some example_context,
                            gainNode := Some \<lparr>gain_events = []\<rparr>,
                            audioBuffer := Some example_buffer\<rparr>"
  by (simp add: loaded_history_def engine_after_def run_def initialize_def loadAudioFile_def
      AudioSyncEngine_new_def)

lemma playing_eq:
  "engine_after playing_history
     = AudioSyncEngine_new\<lparr>audioContext := Some example_context,
                            gainNode := Some \<lparr>gain_events = []\<rparr>,
                            audioBuffer := Some example_buffer,
                            sourceNode := Some \<lparr>node_buffer = example_buffer, start_offset = Some 0,
                                                 stopped = False\<rparr>,
                            isPlaying := True\<rparr>"
proof -
  have "engine_after playing_history = snd (play (engine_after loaded_history) 0 0)"
    by (simp add: playing_history_def engine_after_def run_def)
  then show ?thesis
    by (simp add: loaded_eq play_def stop_def node_start_def Let_def AudioSyncEngine_new_def)
qed

lemma after_failed_play_eq:
  "after_failed_play
     = AudioSyncEngine_new\<lparr>audioContext := Some example_context,
                            gainNode := Some \<lparr>gain_events = []\<rparr>,
                            audioBuffer := Some example_buffer,
                            sourceNode := Some \<lparr>node_buffer = example_buffer, start_offset = None,
                                                 stopped = False\<rparr>,
                            startTime := 3\<rparr>"
  by (simp add: after_failed_play_def loaded_eq play_def stop_def node_start_def Let_def
      AudioSyncEngine_new_def)

subsection \<open>The playback clock\<close>

lemma getCurrentTime_ready:
  "ready s \<Longrightarrow> getCurrentTime s t = Inr (if isPlaying s then t - startTime s else pauseTime s)"
  by (clarsimp simp: ready_def getCurrentTime_def)

lemma getCurrentTime_inv:
  "engine_inv s \<Longrightarrow> getCurrentTime s t = Inr (if isPlaying s then t - startTime s else pauseTime s)"
  by (auto simp: engine_inv_def getCurrentTime_def)

lemma play_ready:
  assumes "ready s" "0 \<le> t"
  shows "\<exists>s'. play s now t = (Inr True, s') \<and> ready s' \<and> isPlaying s'
              \<and> getCurrentTime s' now = Inr t"
proof -
  from assms(1) obtain b ctx where
    f: "audioBuffer s = Some b" "audioContext s = Some ctx" and st: "startable s"
    by (auto simp: ready_def)
  show ?thesis
    using f by (simp add: play_started [OF f st assms(2)] ready_def startable_def getCurrentTime_def)
qed

lemma pause_ready: "ready s \<Longrightarrow> \<exists>s'. pause s now = (None, s') \<and> ready s'"
proof (cases "isPlaying s \<and> sourceNode s \<noteq> None")
  case False
  assume "ready s"
  then show ?thesis using False by (auto simp: pause_not_playing pause_no_node)
next
  case True
  assume r: "ready s"
  with True obtain n ctx where
    f: "sourceNode s = Some n" "start_offset n \<noteq> None" "audioContext s = Some ctx"
    by (auto simp: ready_def startable_def)
  from True have p: "isPlaying s" by simp
  show ?thesis
    using r f by (simp add: pause_playing [OF p f] ready_def startable_def)
qed

lemma seek_ready:
  assumes "ready s" "isPlaying s \<longrightarrow> 0 \<le> t"
  shows "\<exists>s'. seek s now t = (None, s') \<and> ready s' \<and> getCurrentTime s' now = Inr t"
proof (cases "isPlaying s")
  case True
  with assms(2) have "0 \<le> t" by simp
  from play_ready [OF assms(1) this, of now] show ?thesis
    using True by (auto simp: seek_def)
next
  case False
  then show ?thesis
    using assms(1) by (simp add: seek_paused ready_def startable_def getCurrentTime_def)
qed

lemma step_call_ready:
  assumes "ready s" "call_ok s c"
  shows "\<exists>s'. step_call s (now, c) = (None, s') \<and> ready s'
              \<and> (\<forall>p. position_set_by c = Some p \<longrightarrow> getCurrentTime s' now = Inr p)
              \<and> (\<forall>p. c = PlayAt p \<longrightarrow> isPlaying s')"
proof (cases c)
  case (PlayAt t)
  with assms(2) have "0 \<le> t" by simp
  from play_ready [OF assms(1) this, of now] show ?thesis
    unfolding PlayAt by auto
next
  case PauseNow
  from pause_ready [OF assms(1), of now] show ?thesis
    unfolding PauseNow by auto
next
  case (SeekTo t)
  with assms(2) have "isPlaying s \<longrightarrow> 0 \<le> t" by simp
  from seek_ready [OF assms(1) this, of now] show ?thesis
    unfolding SeekTo by auto
qed

lemma run_calls_last:
  assumes "ready s" "calls_ok s (xs @ [(now, c)])"
  shows "\<exists>s0 s'. run_calls s xs = Inr s0 \<and> ready s0 \<and> call_ok s0 c
                 \<and> step_call s0 (now, c) = (None, s')
                 \<and> run_calls s (xs @ [(now, c)]) = Inr s'"
  using assms
proof (induction xs arbitrary: s)
  case Nil
  then have ok: "call_ok s c" by simp
  from step_call_ready [OF Nil(1) ok, of now] obtain s' where
    "step_call s (now, c) = (None, s')" by blast
  then show ?case using Nil(1) ok by simp
next
  case (Cons x xs)
  obtain t d where x: "x = (t, d)" by (cases x)
  from Cons.prems(2) have ok: "call_ok s d"
    and rest: "calls_ok (snd (step_call s (t, d))) (xs @ [(now, c)])"
    by (simp_all add: x)
  from step_call_ready [OF Cons.prems(1) ok, of t] obtain s1 where
    s1: "step_call s (t, d) = (None, s1)" "ready s1" by blast
  from rest s1(1) have "calls_ok s1 (xs @ [(now, c)])" by simp
  from Cons.IH [OF s1(2) this] show ?case
    by (simp add: x s1(1))
qed

lemma pause_twice:
  assumes inv: "engine_inv s"
  shows "\<exists>s1 pos. pause s n1 = (None, s1) \<and> pause s1 n2 = (None, s1)
           \<and> getCurrentTime s n1 = Inr pos \<and> pauseTime s1 = pos \<and> \<not> isPlaying s1
           \<and> getCurrentTime s1 n1 = Inr pos \<and> getCurrentTime s1 n2 = Inr pos"
proof (cases "isPlaying s")
  case False
  then show ?thesis
    by (simp add: pause_not_playing getCurrentTime_def)
next
  case True
  with inv obtain n b ctx where
    f: "sourceNode s = Some n" "start_offset n \<noteq> None" "audioContext s = Some ctx"
    by (auto simp: engine_inv_def startable_def)
  let ?s1 = "s\<lparr>pauseTime := n1 - startTime s, sourceNode := Some (n\<lparr>stopped := True\<rparr>),
                isPlaying := False\<rparr>"
  have p1: "pause s n1 = (None, ?s1)" using pause_playing [OF True f] .
  have p2: "pause ?s1 n2 = (None, ?s1)" by (simp add: pause_not_playing)
  have g: "getCurrentTime s n1 = Inr (n1 - startTime s)"
    using True f by (simp add: getCurrentTime_def)
  show ?thesis
    using p1 p2 g by (simp add: getCurrentTime_def)
qed

lemma seek_inv:
  assumes "engine_inv s" "isPlaying s \<longrightarrow> 0 \<le> p"
  shows "\<exists>s'. seek s now p = (None, s') \<and> getCurrentTime s' now = Inr p"
proof (cases "isPlaying s")
  case True
  then have "ready s" using assms(1) by (simp add: engine_inv_def ready_def)
  from seek_ready [OF this assms(2), of now] show ?thesis by blast
next
  case False
  then show ?thesis by (simp add: seek_paused getCurrentTime_def)
qed

lemma syncWithHost_inv:
  assumes "engine_inv s"
  shows "syncWithHost s now pnow h ht =
           (if \<bar>(if isPlaying s then now - startTime s else pauseTime s) - targetTime pnow h ht\<bar>
                 > 5 / 100
            then seek s now (targetTime pnow h ht) else (None, s))"
  using getCurrentTime_inv [OF assms, of now]
  by (simp add: syncWithHost_def)

subsection \<open>Scheduling chunks\<close>

lemma copy_samples_from:
  "length dst = length src \<Longrightarrow> i \<le> length src \<Longrightarrow>
   copy_samples src i dst = take i dst @ drop i src"
proof (induction src i dst rule: copy_samples.induct)
  case (1 src i dst)
  show ?case
  proof (cases "i < length src")
    case True
    have "copy_samples src i dst = copy_samples src (Suc i) (dst[i := src ! i])"
      using True by (subst copy_samples.simps) simp
    also have "\<dots> = take (Suc i) (dst[i := src ! i]) @ drop (Suc i) src"
      using "1.IH" [OF True] "1.prems" True by simp
    also have "\<dots> = take i dst @ drop i src"
      using True "1.prems"
      by (simp add: take_Suc_conv_app_nth Cons_nth_drop_Suc)
    finally show ?thesis .
  next
    case False
    then show ?thesis using "1.prems" by (subst copy_samples.simps) simp
  qed
qed

lemma copy_samples_all: "copy_samples src 0 (replicate (length src) 0) = src"
  using copy_samples_from [of "replicate (length src) 0" src 0] by simp

lemma playable_createBuffer:
  "playable ctx c \<Longrightarrow>
   createBuffer ctx (length (audioData c)) (rate_or_default (sampleRate c))
     = Inr \<lparr>buf_sampleRate = rate_or_default (sampleRate c),
            channelData = replicate (length (audioData c)) 0\<rparr>"
  by (simp add: playable_def createBuffer_def split: if_splits)

lemma playAudioChunk_playable:
  assumes "audioContext s = Some ctx" "gainNode s = Some g" "playable ctx c"
  shows "playAudioChunk s now c =
           s\<lparr>started := started s @ [chunk_node_of (max now (nextPlayTime s)) c],
             nextPlayTime := end_when (chunk_node_of (max now (nextPlayTime s)) c)\<rparr>"
  using assms
  by (simp add: playAudioChunk_def playable_createBuffer copy_samples_all Let_def
      chunk_node_of_def end_when_def)

lemma playAudioChunk_no_context: "audioContext s = None \<Longrightarrow> playAudioChunk s now c = s"
  by (simp add: playAudioChunk_def)

lemma playAudioChunk_not_playable:
  "audioContext s = Some ctx \<Longrightarrow> \<not> playable ctx c \<Longrightarrow> playAudioChunk s now c = s"
  by (simp add: playAudioChunk_def playable_def split: sum.splits)

lemma empty_chunk_dropped: "playAudioChunk initialised now empty_chunk = initialised"
  by (simp add: playAudioChunk_def createBuffer_def empty_chunk_def initialised_def
      engine_after_def run_def initialize_def)

lemma ingest_snoc: "ingest s (xs @ [(now, c)]) = playAudioChunk (ingest s xs) now c"
  by (induction xs arbitrary: s) auto

lemma ingest_schedule:
  assumes "audioContext s = Some ctx" "gainNode s = Some g"
    and "\<forall>x \<in> set xs. playable ctx (snd x)"
  shows "\<exists>ns. started (ingest s xs) = started s @ ns
              \<and> audioContext (ingest s xs) = Some ctx \<and> gainNode (ingest s xs) = Some g
              \<and> length ns = length xs
              \<and> (\<forall>k < length xs.
                    ns ! k = chunk_node_of (max (fst (xs ! k)) (nextPlayTime (ingest s (take k xs))))
                               (snd (xs ! k))
                    \<and> nextPlayTime (ingest s (take (Suc k) xs)) = end_when (ns ! k))"
  using assms(3)
proof (induction xs rule: rev_induct)
  case Nil
  then show ?case using assms(1,2) by simp
next
  case (snoc x xs)
  obtain now c where x: "x = (now, c)" by (cases x)
  have pc: "playable ctx c" using snoc.prems by (simp add: x)
  have "\<forall>x \<in> set xs. playable ctx (snd x)" using snoc.prems by simp
  from snoc.IH [OF this] obtain ns where
    st: "started (ingest s xs) = started s @ ns"
    and cg: "audioContext (ingest s xs) = Some ctx" "gainNode (ingest s xs) = Some g"
    and len: "length ns = length xs"
    and each: "\<forall>k < length xs.
                 ns ! k = chunk_node_of (max (fst (xs ! k)) (nextPlayTime (ingest s (take k xs))))
                            (snd (xs ! k))
                 \<and> nextPlayTime (ingest s (take (Suc k) xs)) = end_when (ns ! k)"
    by blast
  define n where "n = chunk_node_of (max now (nextPlayTime (ingest s xs))) c"
  have step: "ingest s (xs @ [x])
                = (ingest s xs)\<lparr>started := started (ingest s xs) @ [n], nextPlayTime := end_when n\<rparr>"
    unfolding x ingest_snoc n_def using cg pc by (rule playAudioChunk_playable)
  have a: "started (ingest s (xs @ [x])) = started s @ (ns @ [n])"
    by (simp add: step st)
  have b: "audioContext (ingest s (xs @ [x])) = Some ctx" "gainNode (ingest s (xs @ [x])) = Some g"
    by (simp_all add: step cg)
  have c: "length (ns @ [n]) = length (xs @ [x])" by (simp add: len)
  have d: "(ns @ [n]) ! k
             = chunk_node_of (max (fst ((xs @ [x]) ! k)) (nextPlayTime (ingest s (take k (xs @ [x])))))
                 (snd ((xs @ [x]) ! k))
           \<and> nextPlayTime (ingest s (take (Suc k) (xs @ [x]))) = end_when ((ns @ [n]) ! k)"
    if k: "k < length (xs @ [x])" for k
  proof (cases "k < length xs")
    case True
    then show ?thesis using each len by (simp add: nth_append)
  next
    case False
    then have "k = length xs" using k by simp
    then show ?thesis using step by (simp add: len nth_append n_def x)
  qed
  show ?case
    using a b c d by (intro exI [of _ "ns @ [n]"]) blast
qed

subsection \<open>The gain parameter\<close>

lemma param_value_before_step:
  "t < T \<Longrightarrow> param_value v0 t0 (es @ [SetValueAtTime v T]) t = param_value v0 t0 es t"
  by (induction v0 t0 es t rule: param_value.induct) simp_all

lemma param_value_from_step:
  "\<forall>e \<in> set es. event_time e \<le> T \<Longrightarrow> T \<le> t \<Longrightarrow>
   param_value v0 t0 (es @ [SetValueAtTime v T]) t = v"
  by (induction v0 t0 es t rule: param_value.induct) (simp_all add: event_time_def)

subsection \<open>The ICE candidate handler\<close>

lemma onicecandidate_open:
  assumes "ws_readyState w = OPEN"
  shows "onicecandidate (Some c) (Some w)
           = Some (w\<lparr>ws_sent := ws_sent w @
                [\<lparr>env_type = ''webrtc_ice_candidate'', env_candidate = c, target_id = ''broadcast''\<rparr>]\<rparr>)"
  using assms by (simp add: onicecandidate_def onMessage_def sendWebSocketMessage_def)

lemma onicecandidate_not_open:
  assumes "ws_readyState w \<noteq> OPEN"
  shows "onicecandidate cand (Some w) = Some w"
  using assms
  by (simp add: onicecandidate_def onMessage_def sendWebSocketMessage_def split: option.splits)

lemma onicecandidate_no_socket: "onicecandidate cand None = None"
  by (simp add: onicecandidate_def onMessage_def sendWebSocketMessage_def split: option.splits)

lemma onicecandidate_null: "onicecandidate None ws = ws"
  by (simp add: onicecandidate_def)

section \<open>The claims\<close>

subsection \<open>C10: play without a buffer or a context\<close>

text \<open>
  C10. With no decoded buffer, or with no audio context, \<^verbatim>\<open>play(t)\<close> returns \<^verbatim>\<open>false\<close> and
  the engine is left exactly as it was: start time, pause time, playing flag and source
  node are untouched, so no node was created and none was stopped.
\<close>

theorem play_without_buffer_or_context:
  assumes "audioBuffer s = None \<or> audioContext s = None"
  shows "play s now t = (Inr False, s)"
  using assms by (auto simp: play_def split: option.splits)

theorem play_without_buffer_or_context_witness:
  "(audioBuffer AudioSyncEngine_new = None \<or> audioContext AudioSyncEngine_new = None)
   \<and> play AudioSyncEngine_new 3 7 = (Inr False, AudioSyncEngine_new)"
  using play_without_buffer_or_context [of AudioSyncEngine_new 3 7]
  by (simp add: AudioSyncEngine_new_def)

subsection \<open>C1: the playback clock after play, pause and seek\<close>

text \<open>
  C1, as stated, at a negative offset. On the engine that has loaded its file, \<^verbatim>\<open>play(-1)\<close>
  at context time 2 raises \<^verbatim>\<open>RangeError\<close> from \<^verbatim>\<open>start(0, -1)\<close>: the engine is left not
  playing, with position 0 and not -1, and holding a node that was never started, so
  that a later \<^verbatim>\<open>play(5)\<close> raises \<^verbatim>\<open>InvalidStateError\<close> in \<^verbatim>\<open>this.stop()\<close> and changes nothing.
  On the playing engine \<^verbatim>\<open>seek(-1)\<close> raises the same \<^verbatim>\<open>RangeError\<close>.
\<close>

theorem play_negative_offset_counterexample:
  "play (engine_after loaded_history) 2 (- 1) = (Inl RangeError, after_failed_play)
   \<and> run_calls (engine_after loaded_history) [(2, PlayAt (- 1))] = Inl RangeError
   \<and> \<not> isPlaying after_failed_play
   \<and> getCurrentTime after_failed_play 2 = Inr 0
   \<and> play after_failed_play 3 5 = (Inl InvalidStateError, after_failed_play)
   \<and> fst (seek (engine_after playing_history) 2 (- 1)) = Some RangeError"
proof -
  have b: "audioBuffer (engine_after loaded_history) = Some example_buffer"
    and c: "audioContext (engine_after loaded_history) = Some example_context"
    and st: "startable (engine_after loaded_history)"
    by (simp_all add: loaded_eq startable_def AudioSyncEngine_new_def)
  have p: "play (engine_after loaded_history) 2 (- 1) = (Inl RangeError, after_failed_play)"
    unfolding after_failed_play_def using play_negative [OF b c st, of "- 1" 2] by simp
  have r: "run_calls (engine_after loaded_history) [(2, PlayAt (- 1))] = Inl RangeError"
    by (simp add: p)
  have n: "\<not> isPlaying after_failed_play" "getCurrentTime after_failed_play 2 = Inr 0"
    by (simp_all add: after_failed_play_eq getCurrentTime_def AudioSyncEngine_new_def)
  have q: "play after_failed_play 3 5 = (Inl InvalidStateError, after_failed_play)"
    by (rule play_stuck [of _ example_buffer example_context])
       (simp_all add: after_failed_play_eq startable_def AudioSyncEngine_new_def)
  have b': "audioBuffer (engine_after playing_history) = Some example_buffer"
    and c': "audioContext (engine_after playing_history) = Some example_context"
    and st': "startable (engine_after playing_history)"
    and pl: "isPlaying (engine_after playing_history)"
    by (simp_all add: playing_eq startable_def AudioSyncEngine_new_def)
  have k: "fst (seek (engine_after playing_history) 2 (- 1)) = Some RangeError"
    using play_negative [OF b' c' st', of "- 1" 2] pl by (simp add: seek_def)
  from p r n q k show ?thesis by simp
qed

text \<open>
  C1, amended. Take an engine, after any history, whose buffer is loaded and whose source
  node, if it has one, was started (so unless an earlier \<^verbatim>\<open>play\<close> raised), and any sequence
  \<open>cs\<close> of \<^verbatim>\<open>play(t)\<close>, \<^verbatim>\<open>pause()\<close> and \<^verbatim>\<open>seek(t)\<close> calls, each at its own context time, in
  which every \<^verbatim>\<open>play(t)\<close>, and every \<^verbatim>\<open>seek(t)\<close> made while the engine is playing, has
  \<open>0 \<le> t\<close>. After each call (the \<open>k\<close>-th, made at \<open>now\<close>) the run has raised nothing
  and has reached a state \<open>s'\<close> where
  \<^item> \<^verbatim>\<open>getCurrentTime()\<close> read at any time \<open>t\<close> is \<open>t - startTime\<close> when playing and
    \<open>pauseTime\<close> when not;
  \<^item> if the call was \<^verbatim>\<open>play(p)\<close> or \<^verbatim>\<open>seek(p)\<close>, the position read at \<open>now\<close> is \<open>p\<close>, and
    after \<^verbatim>\<open>play(p)\<close> the engine is playing;
  \<^item> while playing, the position read \<open>d\<close> later is larger by \<open>d\<close>.
\<close>

theorem playback_clock_invariant:
  assumes loaded: "audioBuffer (engine_after h) \<noteq> None"
    and node: "startable (engine_after h)"
    and k: "0 < k" "k \<le> length cs"
    and call: "cs ! (k - 1) = (now, c)"
    and offsets: "calls_ok (engine_after h) (take k cs)"
  shows "\<exists>s'. run_calls (engine_after h) (take k cs) = Inr s'
           \<and> (\<forall>t. getCurrentTime s' t
                     = Inr (if isPlaying s' then t - startTime s' else pauseTime s'))
           \<and> (\<forall>p. position_set_by c = Some p \<longrightarrow> getCurrentTime s' now = Inr p)
           \<and> (\<forall>p. c = PlayAt p \<longrightarrow> isPlaying s')
           \<and> (isPlaying s' \<longrightarrow>
                 (\<forall>t d. \<exists>x. getCurrentTime s' t = Inr x \<and> getCurrentTime s' (t + d) = Inr (x + d)))"
proof -
  have r0: "ready (engine_after h)"
    using loaded node engine_inv_after [of h] by (simp add: ready_def engine_inv_def)
  have tk: "take k cs = take (k - 1) cs @ [(now, c)]"
    using k call by (metis Suc_pred' less_eq_Suc_le take_Suc_conv_app_nth)
  from run_calls_last [OF r0 offsets [unfolded tk]] obtain s0 s' where
    r1: "ready s0" and ok: "call_ok s0 c"
    and st: "step_call s0 (now, c) = (None, s')"
    and run: "run_calls (engine_after h) (take k cs) = Inr s'"
    unfolding tk by blast
  from step_call_ready [OF r1 ok, of now] st have
    r2: "ready s'"
    and b: "\<forall>p. position_set_by c = Some p \<longrightarrow> getCurrentTime s' now = Inr p"
    and c: "\<forall>p. c = PlayAt p \<longrightarrow> isPlaying s'"
    by auto
  have a: "\<forall>t. getCurrentTime s' t = Inr (if isPlaying s' then t - startTime s' else pauseTime s')"
    using r2 by (simp add: getCurrentTime_ready)
  have d: "isPlaying s' \<longrightarrow>
             (\<forall>t d. \<exists>x. getCurrentTime s' t = Inr x \<and> getCurrentTime s' (t + d) = Inr (x + d))"
    using r2 by (simp add: getCurrentTime_ready)
  from run a b c d show ?thesis by blast
qed

theorem playback_clock_invariant_witness:
  "audioBuffer (engine_after loaded_history) \<noteq> None
   \<and> startable (engine_after loaded_history)
   \<and> calls_ok (engine_after loaded_history) [(1, PlayAt 5), (3, PauseNow), (4, SeekTo (- 7))]
   \<and> (\<exists>s'. run_calls (engine_after loaded_history) [(1, PlayAt 5)] = Inr s'
           \<and> isPlaying s' \<and> getCurrentTime s' 1 = Inr 5 \<and> getCurrentTime s' 3 = Inr 7)
   \<and> (\<exists>s'. run_calls (engine_after loaded_history) [(1, PlayAt 5), (3, PauseNow), (4, SeekTo (- 7))]
              = Inr s'
           \<and> getCurrentTime s' 4 = Inr (- 7))"
proof -
  let ?cs = "[(1, PlayAt 5), (3, PauseNow), (4, SeekTo (- 7))] :: (real \<times> call) list"
  have l: "audioBuffer (engine_after loaded_history) \<noteq> None"
    and n: "startable (engine_after loaded_history)"
    by (simp_all add: loaded_eq startable_def AudioSyncEngine_new_def)
  have b: "audioBuffer (engine_after loaded_history) = Some example_buffer"
    and c: "audioContext (engine_after loaded_history) = Some example_context"
    by (simp_all add: loaded_eq AudioSyncEngine_new_def)
  have p: "snd (play (engine_after loaded_history) 1 5)
             = (engine_after loaded_history)
                 \<lparr>sourceNode := Some \<lparr>node_buffer = example_buffer, start_offset = Some 5,
                                      stopped = False\<rparr>,
                  isPlaying := True, startTime := 1 - 5, pauseTime := 0\<rparr>"
    using play_started [OF b c n, of 5 1] by simp
  have ok1: "calls_ok (engine_after loaded_history) (take 1 ?cs)" by simp
  have ok3: "calls_ok (engine_after loaded_history) (take 3 ?cs)"
    by (simp add: play_started [OF b c n, of 5 1] pause_def node_stop_def c)
  from playback_clock_invariant [OF l n _ _ _ ok1, of 1 "PlayAt 5"] obtain s1 where
    s1: "run_calls (engine_after loaded_history) [(1, PlayAt 5)] = Inr s1"
      "isPlaying s1" "getCurrentTime s1 1 = Inr 5"
      "\<exists>x. getCurrentTime s1 1 = Inr x \<and> getCurrentTime s1 (1 + 2) = Inr (x + 2)"
    by auto
  from s1(3,4) have s1': "getCurrentTime s1 3 = Inr 7" by auto
  from playback_clock_invariant [OF l n _ _ _ ok3, of 4 "SeekTo (- 7)"] obtain s3 where
    s3: "run_calls (engine_after loaded_history) ?cs = Inr s3" "getCurrentTime s3 4 = Inr (- 7)"
    by auto
  from ok3 have "calls_ok (engine_after loaded_history) ?cs" by simp
  with l n s1(1,2,3) s1' s3 show ?thesis by blast
qed

subsection \<open>C5: pausing twice\<close>

text \<open>
  C5. For the engine after any history, \<^verbatim>\<open>pause()\<close> at time \<open>n1\<close> returns normally with a
  state \<open>s1\<close> whose \<open>pauseTime\<close> is the position the engine had at \<open>n1\<close>; a second
  \<^verbatim>\<open>pause()\<close> at any later time \<open>n2\<close> changes nothing, and the position read after the
  second call equals the position read after the first.
\<close>

theorem pause_idempotent:
  "\<exists>s1 pos. getCurrentTime (engine_after h) n1 = Inr pos
     \<and> pause (engine_after h) n1 = (None, s1)
     \<and> pauseTime s1 = pos
     \<and> getCurrentTime s1 n1 = Inr pos
     \<and> pause s1 n2 = (None, s1)
     \<and> getCurrentTime s1 n2 = Inr pos"
  using pause_twice [OF engine_inv_after, of h n1 n2] by blast

theorem pause_idempotent_witness:
  "\<exists>s1. pause (engine_after playing_history) 4 = (None, s1)
     \<and> pauseTime s1 = 4
     \<and> getCurrentTime s1 4 = Inr 4
     \<and> pause s1 9 = (None, s1)
     \<and> getCurrentTime s1 9 = Inr 4"
proof -
  have g: "getCurrentTime (engine_after playing_history) 4 = Inr 4"
    by (simp add: playing_eq getCurrentTime_def AudioSyncEngine_new_def)
  from pause_idempotent [of playing_history 4 9] g show ?thesis by auto
qed

subsection \<open>C2: correcting against the host\<close>

text \<open>
  C2, as stated, at two inputs, both on a client that has played from 0 since context
  time 0.
  \<^item> The claim's fixture: the host is at 10.000 s at host timestamp 1000 ms and the
    correction is applied at local time 1040 ms, when the client's position is 9.960 s.
    The projected position is 10.020 s, the drift is 0.060 s, above the threshold: the
    engine reseeks (its start time moves from 0 to -0.060), where the claim says it does
    not.
  \<^item> A negative projection: host position 1 s, host timestamp 60000 ms, local time 0 ms,
    client position 30 s. The projected position is -29 s; the reseek calls
    \<^verbatim>\<open>play(-29)\<close>, which raises \<^verbatim>\<open>RangeError\<close> and leaves the client stopped at position 0,
    not at the projected position.
\<close>

theorem syncWithHost_fixture_counterexample:
  "getCurrentTime (engine_after playing_history) (996 / 100) = Inr (996 / 100)
   \<and> targetTime 1040 10 1000 = 1002 / 100
   \<and> syncWithHost (engine_after playing_history) (996 / 100) 1040 10 1000
       = seek (engine_after playing_history) (996 / 100) (1002 / 100)
   \<and> fst (seek (engine_after playing_history) (996 / 100) (1002 / 100)) = None
   \<and> startTime (engine_after playing_history) = 0
   \<and> startTime (snd (seek (engine_after playing_history) (996 / 100) (1002 / 100))) = - (6 / 100)
   \<and> getCurrentTime (engine_after playing_history) 30 = Inr 30
   \<and> targetTime 0 1 60000 = - 29
   \<and> fst (syncWithHost (engine_after playing_history) 30 0 1 60000) = Some RangeError
   \<and> \<not> isPlaying (snd (syncWithHost (engine_after playing_history) 30 0 1 60000))
   \<and> getCurrentTime (snd (syncWithHost (engine_after playing_history) 30 0 1 60000)) 30 = Inr 0"
proof -
  let ?s = "engine_after playing_history"
  have b: "audioBuffer ?s = Some example_buffer"
    and c: "audioContext ?s = Some example_context"
    and st: "startable ?s" and pl: "isPlaying ?s" and t0: "startTime ?s = 0"
    by (simp_all add: playing_eq startable_def AudioSyncEngine_new_def)
  have g1: "getCurrentTime ?s (996 / 100) = Inr (996 / 100)"
    and g2: "getCurrentTime ?s 30 = Inr 30"
    using pl c t0 by (simp_all add: getCurrentTime_def)
  have t1: "targetTime 1040 10 1000 = 1002 / 100" and t2: "targetTime 0 1 60000 = - 29"
    by (simp_all add: targetTime_def networkLatency_def)
  have y1: "syncWithHost ?s (996 / 100) 1040 10 1000 = seek ?s (996 / 100) (1002 / 100)"
    using g1 by (simp add: syncWithHost_def targetTime_def networkLatency_def)
  have k1: "seek ?s (996 / 100) (1002 / 100)
              = (None, ?s\<lparr>sourceNode := Some \<lparr>node_buffer = example_buffer,
                                                start_offset = Some (1002 / 100), stopped = False\<rparr>,
                            isPlaying := True, startTime := 996 / 100 - 1002 / 100,
                            pauseTime := 0\<rparr>)"
    using play_started [OF b c st, of "1002 / 100" "996 / 100"] pl by (simp add: seek_def)
  have y2: "syncWithHost ?s 30 0 1 60000 = seek ?s 30 (- 29)"
    using g2 by (simp add: syncWithHost_def targetTime_def networkLatency_def)
  have k2: "seek ?s 30 (- 29)
              = (Some RangeError,
                 ?s\<lparr>sourceNode := Some \<lparr>node_buffer = example_buffer, start_offset = None,
                                       stopped = False\<rparr>,
                   isPlaying := False, startTime := 30 - (- 29), pauseTime := 0\<rparr>)"
    using play_negative [OF b c st, of "- 29" 30] pl by (simp add: seek_def)
  show ?thesis
    unfolding y1 y2 k1 k2 using g1 g2 t1 t2 t0 by (simp add: getCurrentTime_def)
qed

text \<open>
  C2, amended. For the engine after any history, every host position, host timestamp and
  local time \<open>pnow\<close>: the latency estimate is \<open>(pnow - hostTimestamp) / 2\<close> ms, the projected
  position \<open>target\<close> is \<open>hostTime + ((pnow - hostTimestamp) / 2) / 1000\<close> s, the position
  \<open>cur\<close> is read without a raise, and
  \<^item> when the drift \<open>\<bar>cur - target\<bar>\<close> exceeds 0.05 s, and the projected position is not
    negative if the engine is playing, \<^verbatim>\<open>syncWithHost\<close> returns normally with the state of
    \<^verbatim>\<open>seek(target)\<close>, whose position is then \<open>target\<close> and which differs from the state
    before;
  \<^item> when the drift is at most 0.05 s, \<^verbatim>\<open>syncWithHost\<close> returns normally with the state
    unchanged.
  With the host at 10.000 s and the correction applied 40 ms after the host's timestamp the
  projected position is 10.020 s: local positions 9.800 s and 9.960 s both reseek, and
  9.980 s does not.
\<close>

theorem syncWithHost_threshold:
  assumes s: "s = engine_after hist"
    and target: "target = hostTime + ((pnow - hostTimestamp) / 2) / 1000"
  shows "\<exists>cur. getCurrentTime s now = Inr cur
           \<and> networkLatency pnow hostTimestamp = (pnow - hostTimestamp) / 2
           \<and> targetTime pnow hostTime hostTimestamp = target
           \<and> (5 / 100 < \<bar>cur - target\<bar> \<and> (isPlaying s \<longrightarrow> 0 \<le> target) \<longrightarrow>
                 (\<exists>s'. syncWithHost s now pnow hostTime hostTimestamp = (None, s')
                       \<and> seek s now target = (None, s')
                       \<and> getCurrentTime s' now = Inr target \<and> s' \<noteq> s))
           \<and> (\<bar>cur - target\<bar> \<le> 5 / 100 \<longrightarrow>
                 syncWithHost s now pnow hostTime hostTimestamp = (None, s))
           \<and> (hostTime = 10 \<and> pnow = hostTimestamp + 40 \<longrightarrow>
                 target = 1002 / 100
                 \<and> (cur = 98 / 10 \<or> cur = 996 / 100 \<longrightarrow>
                       (\<exists>s'. syncWithHost s now pnow hostTime hostTimestamp = (None, s')
                             \<and> seek s now target = (None, s')
                             \<and> getCurrentTime s' now = Inr target \<and> s' \<noteq> s))
                 \<and> (cur = 998 / 100 \<longrightarrow>
                       syncWithHost s now pnow hostTime hostTimestamp = (None, s)))"
proof -
  have inv: "engine_inv s" unfolding s by (rule engine_inv_after)
  define cur where "cur = (if isPlaying s then now - startTime s else pauseTime s)"
  have g: "getCurrentTime s now = Inr cur"
    unfolding cur_def using inv by (rule getCurrentTime_inv)
  have t: "targetTime pnow hostTime hostTimestamp = target"
    by (simp add: targetTime_def networkLatency_def target)
  have sy: "syncWithHost s now pnow hostTime hostTimestamp =
              (if 5 / 100 < \<bar>cur - target\<bar> then seek s now target else (None, s))"
    using syncWithHost_inv [OF inv, of now pnow hostTime hostTimestamp]
    by (simp add: t cur_def)
  have reseek: "\<exists>s'. syncWithHost s now pnow hostTime hostTimestamp = (None, s')
                     \<and> seek s now target = (None, s')
                     \<and> getCurrentTime s' now = Inr target \<and> s' \<noteq> s"
    if d: "5 / 100 < \<bar>cur - target\<bar>" and nn: "isPlaying s \<longrightarrow> 0 \<le> target"
  proof -
    from seek_inv [OF inv nn, of now] obtain s' where
      s': "seek s now target = (None, s')" "getCurrentTime s' now = Inr target"
      by blast
    have "s' \<noteq> s"
    proof
      assume "s' = s"
      with s'(2) g have "cur = target" by simp
      with d show False by simp
    qed
    with s' sy d show ?thesis by simp
  qed
  have still: "syncWithHost s now pnow hostTime hostTimestamp = (None, s)"
    if "\<bar>cur - target\<bar> \<le> 5 / 100"
    using that sy by simp
  have fx: "target = 1002 / 100" if "hostTime = 10 \<and> pnow = hostTimestamp + 40"
    using that by (simp add: target)
  have f1: "\<exists>s'. syncWithHost s now pnow hostTime hostTimestamp = (None, s')
                 \<and> seek s now target = (None, s')
                 \<and> getCurrentTime s' now = Inr target \<and> s' \<noteq> s"
    if "hostTime = 10 \<and> pnow = hostTimestamp + 40" "cur = 98 / 10 \<or> cur = 996 / 100"
  proof (rule reseek)
    show "5 / 100 < \<bar>cur - target\<bar>" using that fx by auto
    show "isPlaying s \<longrightarrow> 0 \<le> target" using that fx by simp
  qed
  have f2: "syncWithHost s now pnow hostTime hostTimestamp = (None, s)"
    if "hostTime = 10 \<and> pnow = hostTimestamp + 40" "cur = 998 / 100"
    using that fx by (intro still) simp
  show ?thesis
    apply (rule exI [of _ cur])
    using g t reseek still fx f1 f2
    by (simp add: networkLatency_def)
qed

theorem syncWithHost_threshold_witness:
  "syncWithHost (engine_after playing_history) (998 / 100) 1040 10 1000
     = (None, engine_after playing_history)
   \<and> (\<exists>s'. syncWithHost (engine_after playing_history) (98 / 10) 1040 10 1000 = (None, s')
           \<and> seek (engine_after playing_history) (98 / 10) (1002 / 100) = (None, s')
           \<and> getCurrentTime s' (98 / 10) = Inr (1002 / 100))"
proof -
  have t: "(1002 / 100 :: real) = 10 + ((1040 - 1000) / 2) / 1000" by simp
  have g1: "getCurrentTime (engine_after playing_history) (998 / 100) = Inr (998 / 100)"
    and g2: "getCurrentTime (engine_after playing_history) (98 / 10) = Inr (98 / 10)"
    by (simp_all add: playing_eq getCurrentTime_def AudioSyncEngine_new_def)
  from syncWithHost_threshold [OF refl t, of playing_history "998 / 100"] g1
  have a: "syncWithHost (engine_after playing_history) (998 / 100) 1040 10 1000
             = (None, engine_after playing_history)"
    by auto
  from syncWithHost_threshold [OF refl t, of playing_history "98 / 10"] g2
  have b: "\<exists>s'. syncWithHost (engine_after playing_history) (98 / 10) 1040 10 1000 = (None, s')
           \<and> seek (engine_after playing_history) (98 / 10) (1002 / 100) = (None, s')
           \<and> getCurrentTime s' (98 / 10) = Inr (1002 / 100)"
    by auto
  from a b show ?thesis by simp
qed

subsection \<open>C3: scheduling received chunks\<close>

text \<open>
  C3, as stated, at an engine whose \<^verbatim>\<open>initialize()\<close> has not succeeded: the first line of
  \<^verbatim>\<open>playAudioChunk\<close> returns, so the chunk gets no start time and is dropped.
\<close>

theorem chunk_dropped_counterexample:
  "audioContext AudioSyncEngine_new = None
   \<and> ingest AudioSyncEngine_new [(0, example_chunk)] = AudioSyncEngine_new
   \<and> started (ingest AudioSyncEngine_new [(0, example_chunk)]) = []
   \<and> nextPlayTime (ingest AudioSyncEngine_new [(0, example_chunk)]) = 0"
  by (simp add: playAudioChunk_def AudioSyncEngine_new_def)

text \<open>
  C3, amended. On an engine that has its audio context and gain node, for chunks the
  context can buffer (non-empty, rate supported), ingested in order, chunk \<open>k\<close> arriving
  at context time \<open>fst (xs ! k)\<close>: the engine starts exactly one node per chunk, after the
  nodes it had started before and in arrival order, and node \<open>k\<close>
  \<^item> holds the samples of chunk \<open>k\<close> and lasts sample count over \<^verbatim>\<open>sampleRate || 44100\<close>;
  \<^item> starts at the later of its arrival time and \<open>nextPlayTime\<close> as chunk \<open>k\<close> found it;
  \<^item> leaves \<open>nextPlayTime\<close> at its start time plus its duration.
  So a node never starts before the previous one ends; it starts exactly at that end when
  its chunk arrived by then, and at its arrival time when the chunk arrived later.
\<close>

theorem chunk_schedule:
  assumes "audioContext s = Some ctx" and "gainNode s = Some g"
    and "\<forall>x \<in> set xs. playable ctx (snd x)"
  shows "\<exists>ns. started (ingest s xs) = started s @ ns
           \<and> length ns = length xs
           \<and> (\<forall>k < length xs.
                 channelData (chunk_buffer (ns ! k)) = audioData (snd (xs ! k))
                 \<and> duration (chunk_buffer (ns ! k))
                     = real (length (audioData (snd (xs ! k))))
                         / rate_or_default (sampleRate (snd (xs ! k)))
                 \<and> start_when (ns ! k)
                     = max (fst (xs ! k)) (nextPlayTime (ingest s (take k xs)))
                 \<and> nextPlayTime (ingest s (take (Suc k) xs))
                     = start_when (ns ! k) + duration (chunk_buffer (ns ! k)))
           \<and> (\<forall>k. Suc k < length xs \<longrightarrow>
                 end_when (ns ! k) \<le> start_when (ns ! Suc k)
                 \<and> (fst (xs ! Suc k) \<le> end_when (ns ! k) \<longrightarrow>
                       start_when (ns ! Suc k) = end_when (ns ! k))
                 \<and> (end_when (ns ! k) \<le> fst (xs ! Suc k) \<longrightarrow>
                       start_when (ns ! Suc k) = fst (xs ! Suc k)))"
proof -
  from ingest_schedule [OF assms] obtain ns where
    st: "started (ingest s xs) = started s @ ns"
    and len: "length ns = length xs"
    and each: "\<forall>k < length xs.
                 ns ! k = chunk_node_of (max (fst (xs ! k)) (nextPlayTime (ingest s (take k xs))))
                            (snd (xs ! k))
                 \<and> nextPlayTime (ingest s (take (Suc k) xs)) = end_when (ns ! k)"
    by blast
  have a: "channelData (chunk_buffer (ns ! k)) = audioData (snd (xs ! k))
           \<and> duration (chunk_buffer (ns ! k))
               = real (length (audioData (snd (xs ! k)))) / rate_or_default (sampleRate (snd (xs ! k)))
           \<and> start_when (ns ! k) = max (fst (xs ! k)) (nextPlayTime (ingest s (take k xs)))
           \<and> nextPlayTime (ingest s (take (Suc k) xs))
               = start_when (ns ! k) + duration (chunk_buffer (ns ! k))"
    if "k < length xs" for k
  proof -
    from each that have
      n: "ns ! k = chunk_node_of (max (fst (xs ! k)) (nextPlayTime (ingest s (take k xs))))
                     (snd (xs ! k))"
      and e: "nextPlayTime (ingest s (take (Suc k) xs)) = end_when (ns ! k)"
      by simp_all
    show ?thesis
      unfolding e by (simp add: n chunk_node_of_def duration_def end_when_def)
  qed
  have b: "end_when (ns ! k) \<le> start_when (ns ! Suc k)
           \<and> (fst (xs ! Suc k) \<le> end_when (ns ! k) \<longrightarrow> start_when (ns ! Suc k) = end_when (ns ! k))
           \<and> (end_when (ns ! k) \<le> fst (xs ! Suc k) \<longrightarrow> start_when (ns ! Suc k) = fst (xs ! Suc k))"
    if "Suc k < length xs" for k
  proof -
    from that have k: "k < length xs" by simp
    from a [OF that] have
      "start_when (ns ! Suc k) = max (fst (xs ! Suc k)) (nextPlayTime (ingest s (take (Suc k) xs)))"
      by simp
    moreover from a [OF k] have "nextPlayTime (ingest s (take (Suc k) xs)) = end_when (ns ! k)"
      by (simp add: end_when_def)
    ultimately show ?thesis by simp
  qed
  show ?thesis
    using st len a b by (intro exI [of _ ns]) blast
qed

theorem chunk_schedule_witness:
  "audioContext initialised = Some example_context
   \<and> gainNode initialised = Some \<lparr>gain_events = []\<rparr>
   \<and> playable example_context example_chunk
   \<and> (\<exists>ns. started (ingest initialised
                       [(0, example_chunk), (1 / 5, example_chunk), (2, example_chunk)]) = ns
           \<and> length ns = 3
           \<and> start_when (ns ! 0) = 0 \<and> end_when (ns ! 0) = 1 / 2
           \<and> start_when (ns ! 1) = 1 / 2 \<and> end_when (ns ! 1) = 1
           \<and> start_when (ns ! 2) = 2 \<and> end_when (ns ! 2) = 5 / 2)"
proof -
  let ?xs = "[(0, example_chunk), (1 / 5, example_chunk), (2, example_chunk)] :: (real \<times> chunk) list"
  have c: "audioContext initialised = Some example_context"
    and g: "gainNode initialised = Some \<lparr>gain_events = []\<rparr>"
    and s0: "started initialised = []" and n0: "nextPlayTime initialised = 0"
    by (simp_all add: initialised_eq AudioSyncEngine_new_def)
  have p: "\<forall>x \<in> set ?xs. playable example_context (snd x)"
    by (simp add: playable_def createBuffer_def example_chunk_def example_context_def
        rate_or_default_def)
  have d: "real (length (audioData example_chunk)) / rate_or_default (sampleRate example_chunk) = 1 / 2"
    by (simp add: example_chunk_def rate_or_default_def)
  from chunk_schedule [OF c g p] obtain ns where
    st: "started (ingest initialised ?xs) = started initialised @ ns"
    and len: "length ns = length ?xs"
    and each: "\<forall>k < length ?xs.
                 duration (chunk_buffer (ns ! k))
                   = real (length (audioData (snd (?xs ! k))))
                       / rate_or_default (sampleRate (snd (?xs ! k)))
                 \<and> start_when (ns ! k) = max (fst (?xs ! k)) (nextPlayTime (ingest initialised (take k ?xs)))
                 \<and> nextPlayTime (ingest initialised (take (Suc k) ?xs))
                     = start_when (ns ! k) + duration (chunk_buffer (ns ! k))"
    by blast
  from each [rule_format, of 0] have k0:
    "duration (chunk_buffer (ns ! 0)) = 1 / 2" "start_when (ns ! 0) = 0"
    "nextPlayTime (ingest initialised (take 1 ?xs)) = 1 / 2"
    by (simp_all add: d n0)
  from each [rule_format, of 1] have k1:
    "duration (chunk_buffer (ns ! 1)) = 1 / 2" "start_when (ns ! 1) = 1 / 2"
    "nextPlayTime (ingest initialised (take 2 ?xs)) = 1"
    using k0(3) by (simp_all add: d)
  from each [rule_format, of 2] have k2:
    "duration (chunk_buffer (ns ! 2)) = 1 / 2" "start_when (ns ! 2) = 2"
    using k1(3) by (simp_all add: d)
  have "started (ingest initialised ?xs) = ns" using st s0 by simp
  moreover have "length ns = 3" using len by simp
  moreover have "playable example_context example_chunk" using p by simp
  ultimately show ?thesis
    using c g k0 k1 k2 by (simp add: end_when_def)
qed

subsection \<open>C6: setting the volume\<close>

text \<open>
  C6, as stated, at an initialised engine whose gain is 1: \<^verbatim>\<open>setVolume(0)\<close> at context time 1
  schedules the single event \<^verbatim>\<open>setValueAtTime(0, 1)\<close>, which is not a ramp; the gain is
  still 1 at time 0.999 and is 0 at time 1.
\<close>

theorem setVolume_ramp_counterexample:
  "setVolume initialised 1 0
     = Inr (initialised\<lparr>gainNode := Some \<lparr>gain_events = [SetValueAtTime 0 1]\<rparr>\<rparr>)
   \<and> \<not> is_ramp (SetValueAtTime 0 1)
   \<and> gain_at \<lparr>gain_events = [SetValueAtTime 0 1]\<rparr> (999 / 1000) = 1
   \<and> gain_at \<lparr>gain_events = [SetValueAtTime 0 1]\<rparr> 1 = 0"
  by (simp add: initialised_eq setVolume_def AudioSyncEngine_new_def gain_at_def)

text \<open>
  C6, amended. With no gain node \<^verbatim>\<open>setVolume\<close> does nothing. On an engine with its audio
  context and gain node, \<^verbatim>\<open>setVolume(volume)\<close> at context time \<open>now\<close> appends the one event
  \<^verbatim>\<open>setValueAtTime(volume, now)\<close> to the gain parameter and nothing else changes. It is a
  step, not a ramp: the gain before \<open>now\<close> is what it was, and, with the earlier events
  not later than \<open>now\<close>, it is \<open>volume\<close> from \<open>now\<close> on.
\<close>

theorem setVolume_is_a_step:
  "(gainNode s = None \<longrightarrow> setVolume s now volume = Inr s)
   \<and> (\<forall>g ctx. gainNode s = Some g \<and> audioContext s = Some ctx \<longrightarrow>
         (\<exists>g'. setVolume s now volume = Inr (s\<lparr>gainNode := Some g'\<rparr>)
               \<and> gain_events g' = gain_events g @ [SetValueAtTime volume now]
               \<and> \<not> is_ramp (last (gain_events g'))
               \<and> (\<forall>t < now. gain_at g' t = gain_at g t)
               \<and> ((\<forall>e \<in> set (gain_events g). event_time e \<le> now) \<longrightarrow>
                     (\<forall>t \<ge> now. gain_at g' t = volume))))"
proof (intro conjI allI impI)
  assume "gainNode s = None"
  then show "setVolume s now volume = Inr s" by (simp add: setVolume_def)
next
  fix g ctx
  assume f: "gainNode s = Some g \<and> audioContext s = Some ctx"
  let ?g' = "g\<lparr>gain_events := gain_events g @ [SetValueAtTime volume now]\<rparr>"
  have a: "setVolume s now volume = Inr (s\<lparr>gainNode := Some ?g'\<rparr>)"
    using f by (simp add: setVolume_def)
  have b: "\<forall>t < now. gain_at ?g' t = gain_at g t"
    by (simp add: gain_at_def param_value_before_step)
  have c: "(\<forall>e \<in> set (gain_events g). event_time e \<le> now) \<longrightarrow> (\<forall>t \<ge> now. gain_at ?g' t = volume)"
    by (simp add: gain_at_def param_value_from_step)
  show "\<exists>g'. setVolume s now volume = Inr (s\<lparr>gainNode := Some g'\<rparr>)
             \<and> gain_events g' = gain_events g @ [SetValueAtTime volume now]
             \<and> \<not> is_ramp (last (gain_events g'))
             \<and> (\<forall>t < now. gain_at g' t = gain_at g t)
             \<and> ((\<forall>e \<in> set (gain_events g). event_time e \<le> now) \<longrightarrow>
                   (\<forall>t \<ge> now. gain_at g' t = volume))"
    using a b c by (intro exI [of _ ?g']) simp
qed

theorem setVolume_is_a_step_witness:
  "setVolume AudioSyncEngine_new 2 (1 / 2) = Inr AudioSyncEngine_new
   \<and> (\<exists>g'. setVolume initialised 2 (1 / 2) = Inr (initialised\<lparr>gainNode := Some g'\<rparr>)
           \<and> gain_events g' = [SetValueAtTime (1 / 2) 2]
           \<and> gain_at g' (19 / 10) = 1
           \<and> gain_at g' 2 = 1 / 2)"
proof -
  have n: "gainNode AudioSyncEngine_new = None" by (simp add: AudioSyncEngine_new_def)
  from setVolume_is_a_step [of AudioSyncEngine_new 2 "1 / 2"] n
  have z: "setVolume AudioSyncEngine_new 2 (1 / 2) = Inr AudioSyncEngine_new" by blast
  have a: "gainNode initialised = Some \<lparr>gain_events = []\<rparr> \<and> audioContext initialised = Some example_context"
    by (simp add: initialised_eq AudioSyncEngine_new_def)
  from setVolume_is_a_step [of initialised 2 "1 / 2"] a obtain g' where
    g': "setVolume initialised 2 (1 / 2) = Inr (initialised\<lparr>gainNode := Some g'\<rparr>)"
      "gain_events g' = gain_events \<lparr>gain_events = []\<rparr> @ [SetValueAtTime (1 / 2) 2]"
      "\<forall>t < 2. gain_at g' t = gain_at \<lparr>gain_events = []\<rparr> t"
      "(\<forall>e \<in> set (gain_events \<lparr>gain_events = []\<rparr>). event_time e \<le> 2)
         \<longrightarrow> (\<forall>t \<ge> 2. gain_at g' t = 1 / 2)"
    by blast
  from g'(3) have "gain_at g' (19 / 10) = 1" by (simp add: gain_at_def)
  moreover from g'(4) have "gain_at g' 2 = 1 / 2" by simp
  ultimately show ?thesis using z g'(1,2) by auto
qed

subsection \<open>C7: loading a file\<close>

text \<open>
  C7, as stated, at an engine whose \<^verbatim>\<open>initialize()\<close> has not succeeded: the payload
  \<open>''RIFF''\<close> is one the decoder accepts, yet \<^verbatim>\<open>this.audioContext.decodeAudioData\<close> raises
  on the missing context, the \<^verbatim>\<open>catch\<close> returns \<^verbatim>\<open>false\<close>, and nothing is loaded.
\<close>

theorem loadAudioFile_no_context_counterexample:
  "riff_decoder ''RIFF'' = Some example_buffer
   \<and> loadAudioFile Some riff_decoder AudioSyncEngine_new ''RIFF'' = (False, AudioSyncEngine_new)
   \<and> audioBuffer (snd (loadAudioFile Some riff_decoder AudioSyncEngine_new ''RIFF'')) = None"
  by (simp add: riff_decoder_def loadAudioFile_def AudioSyncEngine_new_def)

text \<open>
  C7, amended. Whatever the browser's file read and decoder do:
  \<^item> on an engine with its audio context, a payload that is read and decoded is stored as
    the buffer, nothing else changes, and \<^verbatim>\<open>loadAudioFile\<close> returns \<^verbatim>\<open>true\<close>;
  \<^item> when the engine has no audio context, or the file cannot be read, or the decoder
    rejects the payload, \<^verbatim>\<open>loadAudioFile\<close> returns \<^verbatim>\<open>false\<close> with the engine exactly as it
    was.
  In both cases start time, pause time, playing flag and the playing source node are the
  ones from before the call.
\<close>

theorem loadAudioFile_atomic:
  assumes r: "r = loadAudioFile arrayBuffer decodeAudioData s payload"
  shows "(\<forall>bytes b. audioContext s \<noteq> None \<and> arrayBuffer payload = Some bytes
                     \<and> decodeAudioData bytes = Some b
               \<longrightarrow> r = (True, s\<lparr>audioBuffer := Some b\<rparr>))
         \<and> (audioContext s = None \<or> arrayBuffer payload = None
               \<or> (\<exists>bytes. arrayBuffer payload = Some bytes \<and> decodeAudioData bytes = None)
               \<longrightarrow> r = (False, s))
         \<and> startTime (snd r) = startTime s \<and> pauseTime (snd r) = pauseTime s
         \<and> isPlaying (snd r) = isPlaying s \<and> sourceNode (snd r) = sourceNode s"
  unfolding r
  by (auto simp: loadAudioFile_def split: option.splits)

text \<open>
  The initialised engine stores the buffer decoded from \<open>''RIFF''\<close>; the playing engine
  refuses \<open>''junk''\<close> and stays as it was.
\<close>

theorem loadAudioFile_atomic_witness:
  "loadAudioFile Some riff_decoder initialised ''RIFF''
     = (True, initialised\<lparr>audioBuffer := Some example_buffer\<rparr>)
   \<and> loadAudioFile Some riff_decoder (engine_after playing_history) ''junk''
     = (False, engine_after playing_history)"
proof -
  have c: "audioContext initialised \<noteq> None"
    by (simp add: initialised_eq AudioSyncEngine_new_def)
  have d: "riff_decoder ''RIFF'' = Some example_buffer" "riff_decoder ''junk'' = None"
    by (simp_all add: riff_decoder_def)
  from loadAudioFile_atomic [where arrayBuffer = Some and decodeAudioData = riff_decoder
      and s = initialised and payload = "''RIFF''", OF refl] c d(1)
  have a: "loadAudioFile Some riff_decoder initialised ''RIFF''
             = (True, initialised\<lparr>audioBuffer := Some example_buffer\<rparr>)"
    by blast
  from loadAudioFile_atomic [where arrayBuffer = Some and decodeAudioData = riff_decoder
      and s = "engine_after playing_history" and payload = "''junk''", OF refl] d(2)
  have b: "loadAudioFile Some riff_decoder (engine_after playing_history) ''junk''
             = (False, engine_after playing_history)"
    by blast
  from a b show ?thesis by simp
qed

subsection \<open>C4: sending on the data channel\<close>

text \<open>
  C4. \<^verbatim>\<open>sendData(d)\<close> hands \<open>d\<close> to the data channel exactly when the channel exists and is
  open, and then changes nothing else; in every other case the manager is returned as it
  was: nothing is queued, and the call cannot raise.
\<close>

theorem sendData_best_effort:
  "(channel_open p \<longrightarrow>
      (\<exists>ch. dataChannel p = Some ch \<and> readyState ch = ChOpen
            \<and> sendData p d = p\<lparr>dataChannel := Some (ch\<lparr>sent := sent ch @ [d]\<rparr>)\<rparr>))
   \<and> (\<not> channel_open p \<longrightarrow> sendData p d = p)"
  by (auto simp: channel_open_def sendData_def split: option.splits)

theorem sendData_best_effort_witness:
  "sendData (P2PManager_new :: (nat, string) p2p_manager) ''tick'' = P2PManager_new
   \<and> sendData ((P2PManager_new :: (nat, string) p2p_manager)
                 \<lparr>dataChannel := Some \<lparr>readyState = ChConnecting, sent = []\<rparr>\<rparr>) ''tick''
       = P2PManager_new\<lparr>dataChannel := Some \<lparr>readyState = ChConnecting, sent = []\<rparr>\<rparr>
   \<and> sendData ((P2PManager_new :: (nat, string) p2p_manager)
                 \<lparr>dataChannel := Some \<lparr>readyState = ChOpen, sent = [''tock'']\<rparr>\<rparr>) ''tick''
       = P2PManager_new\<lparr>dataChannel := Some \<lparr>readyState = ChOpen, sent = [''tock'', ''tick'']\<rparr>\<rparr>"
proof -
  let ?new = "P2PManager_new :: (nat, string) p2p_manager"
  let ?wait = "?new\<lparr>dataChannel := Some \<lparr>readyState = ChConnecting, sent = []\<rparr>\<rparr>"
  let ?open = "?new\<lparr>dataChannel := Some \<lparr>readyState = ChOpen, sent = [''tock'']\<rparr>\<rparr>"
  have n: "\<not> channel_open ?new" "\<not> channel_open ?wait" "channel_open ?open"
    by (simp_all add: channel_open_def P2PManager_new_def)
  from sendData_best_effort [of ?new "''tick''"] n(1)
  have a: "sendData ?new ''tick'' = ?new" by blast
  from sendData_best_effort [of ?wait "''tick''"] n(2)
  have b: "sendData ?wait ''tick'' = ?wait" by blast
  from sendData_best_effort [of ?open "''tick''"] n(3)
  have c: "sendData ?open ''tick''
             = ?new\<lparr>dataChannel := Some \<lparr>readyState = ChOpen, sent = [''tock'', ''tick'']\<rparr>\<rparr>"
    by auto
  from a b c show ?thesis by simp
qed

subsection \<open>C9: applying an ICE candidate\<close>

text \<open>
  C9. Whatever the browser does with the candidate (absorb it, or reject a stray,
  duplicate or late one), \<^verbatim>\<open>addIceCandidate\<close> leaves the manager's \<^verbatim>\<open>connectionState\<close>, data
  channel and role as they were, and keeps the peer connection it had; so a manager that
  was not closed is not closed afterwards. Without a peer connection the call does
  nothing and raises nothing.
\<close>

theorem addIceCandidate_keeps_state:
  assumes "r = addIceCandidate rtc_add p candidate"
  shows "connectionState (snd r) = connectionState p
         \<and> dataChannel (snd r) = dataChannel p
         \<and> isHost (snd r) = isHost p
         \<and> (peerConnection (snd r) = None) = (peerConnection p = None)
         \<and> (peerConnection p = None \<longrightarrow> r = (None, p))
         \<and> (connectionState p \<noteq> CsClosed \<longrightarrow> connectionState (snd r) \<noteq> CsClosed)"
  unfolding assms
  by (auto simp: addIceCandidate_def split: option.splits prod.splits)

text \<open>
  A browser that rejects every candidate with \<^verbatim>\<open>InvalidStateError\<close>, as one does before the
  remote description is set: the error reaches the caller and the manager is unchanged.
\<close>

theorem addIceCandidate_keeps_state_witness:
  "addIceCandidate (\<lambda>pc c. (Some InvalidStateError, pc))
     ((P2PManager_new :: (nat, string) p2p_manager)
        \<lparr>peerConnection := Some 0, connectionState := CsConnecting\<rparr>) ''candidate:1''
     = (Some InvalidStateError, P2PManager_new\<lparr>peerConnection := Some 0, connectionState := CsConnecting\<rparr>)
   \<and> addIceCandidate (\<lambda>pc c. (Some InvalidStateError, pc))
       (P2PManager_new :: (nat, string) p2p_manager) ''candidate:1''
     = (None, P2PManager_new)"
proof -
  let ?rej = "\<lambda>(pc :: nat) (c :: string). (Some InvalidStateError, pc)"
  let ?new = "P2PManager_new :: (nat, string) p2p_manager"
  let ?neg = "?new\<lparr>peerConnection := Some 0, connectionState := CsConnecting\<rparr>"
  have n: "peerConnection ?new = None" by (simp add: P2PManager_new_def)
  from addIceCandidate_keeps_state [where rtc_add = ?rej and p = ?new
      and candidate = "''candidate:1''", OF refl] n
  have a: "addIceCandidate ?rej ?new ''candidate:1'' = (None, ?new)" by blast
  from addIceCandidate_keeps_state [where rtc_add = ?rej and p = ?neg
      and candidate = "''candidate:1''", OF refl]
  have "connectionState (snd (addIceCandidate ?rej ?neg ''candidate:1'')) = CsConnecting"
    by simp
  moreover have "addIceCandidate ?rej ?neg ''candidate:1''
                   = (Some InvalidStateError, (snd (addIceCandidate ?rej ?neg ''candidate:1'')))"
    by (simp add: addIceCandidate_def)
  moreover have "snd (addIceCandidate ?rej ?neg ''candidate:1'') = ?neg"
    by (simp add: addIceCandidate_def P2PManager_new_def)
  ultimately have b: "addIceCandidate ?rej ?neg ''candidate:1'' = (Some InvalidStateError, ?neg)"
    by simp
  from a b show ?thesis by simp
qed

subsection \<open>C8: where ICE candidates are sent\<close>

text \<open>
  C8. Every envelope the ICE candidate handler puts on the relay socket has
  \<^verbatim>\<open>target_id\<close> \<^verbatim>\<open>'broadcast'\<close>, which the relay delivers to every member of the session but the
  sender. For a candidate \<open>c\<close> and an open socket it is the one envelope
  \<^verbatim>\<open>{type: 'webrtc_ice_candidate', candidate: c, target_id: 'broadcast'}\<close>; the end-of-gathering
  event (\<^verbatim>\<open>null\<close> candidate) and a socket that is missing or not open send nothing.
\<close>

theorem ice_candidate_broadcast:
  "\<exists>new. outbox (onicecandidate cand ws) = outbox ws @ new
     \<and> (\<forall>e \<in> set new. target_id e = ''broadcast''
            \<and> forward_targets sess fromConnId (target_id e)
                = filter (\<lambda>m. m \<noteq> fromConnId) (members sess))
     \<and> (\<forall>c w. cand = Some c \<and> ws = Some w \<and> ws_readyState w = OPEN \<longrightarrow>
            new = [\<lparr>env_type = ''webrtc_ice_candidate'', env_candidate = c, target_id = ''broadcast''\<rparr>])"
proof (cases "\<exists>c w. cand = Some c \<and> ws = Some w \<and> ws_readyState w = OPEN")
  case True
  then obtain c w where f: "cand = Some c" "ws = Some w" "ws_readyState w = OPEN" by blast
  show ?thesis
    unfolding f(1,2)
    by (rule exI [of _ "[\<lparr>env_type = ''webrtc_ice_candidate'', env_candidate = c,
                          target_id = ''broadcast''\<rparr>]"])
       (simp add: onicecandidate_open [OF f(3)] outbox_def forward_targets_def)
next
  case False
  have "onicecandidate cand ws = ws"
  proof (cases cand)
    case None
    then show ?thesis by (simp add: onicecandidate_null)
  next
    case (Some c)
    show ?thesis
    proof (cases ws)
      case None
      then show ?thesis by (simp add: onicecandidate_no_socket)
    next
      case (Some w)
      with False \<open>cand = Some c\<close> have "ws_readyState w \<noteq> OPEN" by simp
      then show ?thesis unfolding Some by (rule onicecandidate_not_open)
    qed
  qed
  then show ?thesis using False by (intro exI [of _ "[]"]) auto
qed

text \<open>
  A host \<open>''h''\<close> with clients \<open>''a''\<close> and \<open>''b''\<close>: the candidate client \<open>''a''\<close> gathers
  goes out with target \<^verbatim>\<open>'broadcast'\<close>, so the relay hands it to \<open>''h''\<close> and to \<open>''b''\<close>.
\<close>

theorem ice_candidate_broadcast_witness:
  "outbox (onicecandidate (Some ''candidate:1'') (Some \<lparr>ws_readyState = OPEN, ws_sent = []\<rparr>))
     = [\<lparr>env_type = ''webrtc_ice_candidate'', env_candidate = ''candidate:1'',
         target_id = ''broadcast''\<rparr>]
   \<and> forward_targets \<lparr>host = ''h'', clients = [''a'', ''b'']\<rparr> ''a'' ''broadcast'' = [''h'', ''b'']"
proof -
  let ?w = "\<lparr>ws_readyState = OPEN, ws_sent = [] :: string envelope list\<rparr>"
  let ?e = "\<lparr>env_type = ''webrtc_ice_candidate'', env_candidate = ''candidate:1'',
             target_id = ''broadcast''\<rparr>"
  let ?sess = "\<lparr>host = ''h'', clients = [''a'', ''b'']\<rparr>"
  from ice_candidate_broadcast [of "Some ''candidate:1''" "Some ?w" ?sess "''a''"]
  obtain new where
    n: "outbox (onicecandidate (Some ''candidate:1'') (Some ?w)) = outbox (Some ?w) @ new"
      "\<forall>e \<in> set new. forward_targets ?sess ''a'' (target_id e)
                       = filter (\<lambda>m. m \<noteq> ''a'') (members ?sess)"
      "new = [?e]"
    by auto
  from n(1,3) have a: "outbox (onicecandidate (Some ''candidate:1'') (Some ?w)) = [?e]"
    by (simp add: outbox_def)
  from n(2,3) have "forward_targets ?sess ''a'' ''broadcast'' = filter (\<lambda>m. m \<noteq> ''a'') (members ?sess)"
    by simp
  then have b: "forward_targets ?sess ''a'' ''broadcast'' = [''h'', ''b'']"
    by (simp add: members_def)
  from a b show ?thesis by simp
qed

end
